theory Spec2Isabelle
  imports Complex_Main
begin

section \<open>Tensors and the numerical operations the trainer uses\<close>

text \<open>
  The trainer of \<^verbatim>\<open>policy.py\<close> computes on float64 tensors. The model works on
  exact reals: a tensor of shape \<^verbatim>\<open>[n_path, n_agt]\<close> is a list of rows, one row per
  sample path and one entry per agent; a tensor of shape \<^verbatim>\<open>[n_path, 1]\<close> (a
  \<^verbatim>\<open>keepdims\<close> mean, a slice \<^verbatim>\<open>ashock[:, t:t+1]\<close>, the aggregate state
  \<^verbatim>\<open>N\<close>) is the list of its single column; a tensor of shape
  \<^verbatim>\<open>[n_path, n_agt, d]\<close> is a list of rows of feature vectors.
  Rounding, overflow, infinities and NaN of float64 are outside the model.
  Inputs are taken to have the shapes the trainer's sampler produces; TensorFlow rejects
  inputs of inconsistent shape when it traces the function.
\<close>

type_synonym vec = "real list"
type_synonym mat = "real list list"
type_synonym tensor3 = "real list list list"

definition EPSILON :: real where
  "EPSILON = 1 / 1000"

text \<open>
  \<^verbatim>\<open>tf.clip_by_value(t, clip_value_min, clip_value_max)\<close> takes the minimum with the
  upper bound first and the maximum with the lower bound second; when the bounds cross,
  the lower bound wins.
\<close>

definition clip_by_value :: "real \<Rightarrow> real \<Rightarrow> real \<Rightarrow> real" where
  "clip_by_value t clip_value_min clip_value_max = max (min t clip_value_max) clip_value_min"

definition sigmoid :: "real \<Rightarrow> real" where
  "sigmoid x = 1 / (1 + exp (- x))"

text \<open>
  \<^verbatim>\<open>tf.reduce_mean\<close> of one row. Of an empty row TensorFlow returns NaN; here the
  quotient by zero is 0.
\<close>

definition reduce_mean :: "real list \<Rightarrow> real" where
  "reduce_mean xs = sum_list xs / real (length xs)"

definition reduce_mean_all :: "mat \<Rightarrow> real" where
  "reduce_mean_all m = reduce_mean (concat m)"

text \<open>\<^verbatim>\<open>tf.stop_gradient\<close> is the identity on values.\<close>

definition stop_gradient :: "'a \<Rightarrow> 'a" where
  "stop_gradient x = x"

text \<open>Slices of the shock paths at period \<open>t\<close>.\<close>

definition ashock_at :: "mat \<Rightarrow> nat \<Rightarrow> vec" where
  "ashock_at ashock t = map (\<lambda>r. r ! t) ashock"

definition ishock_at :: "tensor3 \<Rightarrow> nat \<Rightarrow> mat" where
  "ishock_at ishock t = map (map (\<lambda>s. s ! t)) ishock"

text \<open>
  The accumulator \<^verbatim>\<open>util_sum\<close> starts as the Python number 0 and becomes a tensor at
  the first \<^verbatim>\<open>+=\<close> with a tensor (broadcasting).
\<close>

datatype acc = Scalar real | Tensor mat

fun acc_add :: "acc \<Rightarrow> mat \<Rightarrow> acc" where
  "acc_add (Scalar r) m = Tensor (map (map (\<lambda>x. r + x)) m)"
| "acc_add (Tensor u) m = Tensor (map2 (map2 (+)) u m)"

fun acc_times :: "acc \<Rightarrow> real \<Rightarrow> acc" where
  "acc_times (Scalar r) c = Scalar (r * c)"
| "acc_times (Tensor u) c = Tensor (map (map (\<lambda>x. x * c)) u)"

datatype error = NotImplementedError | AssertionError | ZeroDivisionError
  | TypeError | UnboundLocalError | IndexError

section \<open>Model parameters, configuration and collaborators\<close>

record mparam =
  beta :: real
  delta :: real
  alpha :: real
  n_agt :: nat
  tau_b :: real
  tau_g :: real
  l_bar :: real
  er_b :: real
  er_g :: real
  mu :: real
  emp_b :: real
  emp_g :: real
  epsilon_0 :: real
  epsilon_1 :: real
  epsilon_2 :: real
  dt :: real
  sigma2 :: real
  z1 :: real
  z2 :: real
  rhohat :: real

record policy_config =
  t_unroll :: nat
  valid_size :: int
  sgm_scale :: real
  opt_type :: string
  freq_valid :: int
  freq_update_v :: int
  update_init :: bool
  epoch_resample :: int
  lr_beg :: real
  lr_end :: real

record state_dict =
  basic_s :: tensor3
  agt_s :: tensor3

text \<open>
  The collaborators the trainer only calls: the feature transform
  \<^verbatim>\<open>self.prepare_state\<close>, the policy network \<^verbatim>\<open>self.model\<close>, the value functions
  \<^verbatim>\<open>vtr.value_fn\<close> of the value trainers, the dataset's keyed normalisation, and the
  inner gradient tape of the Davila variant. They are parameters of the model. The
  networks have one output unit: their output of shape \<^verbatim>\<open>[n_path, n_agt, 1]\<close> is
  modelled as the matrix that the callers' \<^verbatim>\<open>[..., 0]\<close> selects.
\<close>

record collaborators =
  prepare_state :: "state_dict \<Rightarrow> tensor3"
  model :: "tensor3 \<Rightarrow> mat"
  vtrainers :: "(state_dict \<Rightarrow> mat) list"
  normalize_data :: "string \<Rightarrow> tensor3 \<Rightarrow> tensor3"
  unnormalize_data :: "string \<Rightarrow> mat \<Rightarrow> mat"
  tape_gradient :: "nat \<Rightarrow> mat \<Rightarrow> mat"

record input_data =
  in_k_cross :: mat
  in_N :: vec
  in_ashock :: mat
  in_ishock :: tensor3

record output_dict =
  m_util :: real
  gp_loss :: "real option"
  k_end :: real

section \<open>The base trainer: policy function and discount vector\<close>

definition policy_fn :: "collaborators \<Rightarrow> policy_config \<Rightarrow> state_dict \<Rightarrow> mat" where
  "policy_fn env pc input =
     (let state = prepare_state env input
      in map (map (\<lambda>z. sigmoid (sgm_scale pc * z))) (model env state))"

definition discount :: "mparam \<Rightarrow> nat \<Rightarrow> real" where
  "discount mp t = beta mp ^ t"

text \<open>
  The state handed to the networks at a period: own capital, mean capital, the aggregate
  column and the idiosyncratic shock, normalised under the key \<^verbatim>\<open>basic_s\<close>, and the
  cross-section of capital under the key \<^verbatim>\<open>agt_s\<close>.
\<close>

definition basic_s_tmp :: "mparam \<Rightarrow> mat \<Rightarrow> vec \<Rightarrow> mat \<Rightarrow> tensor3" where
  "basic_s_tmp mp k_cross agg i_t =
     map2 (\<lambda>(k_row, a) i_row.
        map2 (\<lambda>(k, k_mean) i. [k, k_mean, a, i])
          (zip k_row (replicate (n_agt mp) (reduce_mean k_row))) i_row)
       (zip k_cross agg) i_t"

definition expand_dims :: "mat \<Rightarrow> tensor3" where
  "expand_dims m = map (map (\<lambda>x. [x])) m"

definition full_state_dict :: "collaborators \<Rightarrow> mparam \<Rightarrow> mat \<Rightarrow> vec \<Rightarrow> mat \<Rightarrow> state_dict" where
  "full_state_dict env mp k_cross agg i_t =
     \<lparr>basic_s = normalize_data env ''basic_s'' (basic_s_tmp mp k_cross agg i_t),
      agt_s = normalize_data env ''agt_s'' (expand_dims k_cross)\<rparr>"

text \<open>
  The terminal continuation value: the value trainers' outputs, unnormalised, summed
  from the Python number 0 and divided by \<^verbatim>\<open>num_vnet\<close>.
\<close>

definition terminal_value :: "collaborators \<Rightarrow> state_dict \<Rightarrow> error + mat" where
  "terminal_value env sd =
     (case fold (\<lambda>vtr value. acc_add value (unnormalize_data env ''value'' (vtr sd)))
             (vtrainers env) (Scalar 0) of
        Scalar r \<Rightarrow> Inl ZeroDivisionError
      | Tensor v \<Rightarrow> Inr (map (map (\<lambda>x. x / real (length (vtrainers env)))) v))"

text \<open>
  With \<^verbatim>\<open>opt_type = "game"\<close> the shares of the agents other than agent 0 pass
  through \<^verbatim>\<open>tf.stop_gradient\<close> and are concatenated back along the agent axis.
\<close>

definition game_share :: "policy_config \<Rightarrow> mat \<Rightarrow> mat" where
  "game_share pc c_share =
     (if opt_type pc = ''game''
      then map (\<lambda>r. take 1 r @ stop_gradient (drop 1 r)) c_share
      else c_share)"

definition c_share_of :: "collaborators \<Rightarrow> policy_config \<Rightarrow> state_dict \<Rightarrow> mat" where
  "c_share_of env pc sd = game_share pc (policy_fn env pc sd)"

text \<open>The loop \<^verbatim>\<open>for t in range(self.t_unroll)\<close> with a body that may raise.\<close>

fun for_range :: "(nat \<Rightarrow> 's \<Rightarrow> error + 's) \<Rightarrow> nat list \<Rightarrow> 's \<Rightarrow> error + 's" where
  "for_range body [] s = Inr s"
| "for_range body (t # ts) s =
     (case body t s of Inl e \<Rightarrow> Inl e | Inr s' \<Rightarrow> for_range body ts s')"

text \<open>
  The outputs. \<^verbatim>\<open>util_sum[:, 0]\<close> is agent 0's column; it fails on the number 0 (an
  empty horizon) and on a tensor without columns.
\<close>

definition column_0 :: "mat \<Rightarrow> error + vec" where
  "column_0 u = (if [] \<in> set u then Inl IndexError else Inr (map hd u))"

definition output_of :: "policy_config \<Rightarrow> acc \<Rightarrow> real option \<Rightarrow> mat \<Rightarrow> error + output_dict" where
  "output_of pc util_sum gp k_cross =
     (if opt_type pc = ''socialplanner'' then
        Inr \<lparr>m_util = - (case util_sum of Scalar r \<Rightarrow> r | Tensor u \<Rightarrow> reduce_mean_all u),
             gp_loss = gp, k_end = reduce_mean_all k_cross\<rparr>
      else if opt_type pc = ''game'' then
        (case util_sum of
           Scalar r \<Rightarrow> Inl TypeError
         | Tensor u \<Rightarrow>
             (case column_0 u of
                Inl e \<Rightarrow> Inl e
              | Inr col \<Rightarrow> Inr \<lparr>m_util = - reduce_mean col,
                                 gp_loss = gp, k_end = reduce_mean_all k_cross\<rparr>))
      else Inl UnboundLocalError)"

section \<open>The KS variant\<close>

definition ks_wealth_row :: "mparam \<Rightarrow> real \<Rightarrow> real list \<Rightarrow> real list \<Rightarrow> real list" where
  "ks_wealth_row mp a k_row i_row =
     (let k_mean = reduce_mean k_row;
          tau = (if a < 1 then tau_b mp else tau_g mp);
          emp = (if a < 1 then l_bar mp * er_b mp else l_bar mp * er_g mp);
          R = 1 - delta mp + a * alpha mp * (k_mean / emp) powr (alpha mp - 1);
          wage = a * (1 - alpha mp) * (k_mean / emp) powr (alpha mp)
      in map2 (\<lambda>k i. R * k + (1 - tau) * wage * l_bar mp * i + mu mp * wage * (1 - i))
           k_row i_row)"

definition ks_wealth :: "mparam \<Rightarrow> input_data \<Rightarrow> nat \<Rightarrow> mat \<Rightarrow> mat" where
  "ks_wealth mp inp t k_cross =
     map2 (\<lambda>a (k_row, i_row). ks_wealth_row mp a k_row i_row)
       (ashock_at (in_ashock inp) t) (zip k_cross (ishock_at (in_ishock inp) t))"

definition clip_csmp :: "mat \<Rightarrow> mat \<Rightarrow> mat" where
  "clip_csmp c_share wealth =
     map2 (map2 (\<lambda>s w. clip_by_value (s * w) EPSILON (w - EPSILON))) c_share wealth"

definition mat_sub :: "mat \<Rightarrow> mat \<Rightarrow> mat" where
  "mat_sub a b = map2 (map2 (-)) a b"

definition ks_state :: "collaborators \<Rightarrow> mparam \<Rightarrow> input_data \<Rightarrow> nat \<Rightarrow> mat \<Rightarrow> state_dict" where
  "ks_state env mp inp t k_cross =
     full_state_dict env mp k_cross (ashock_at (in_ashock inp) t) (ishock_at (in_ishock inp) t)"

definition ks_csmp :: "collaborators \<Rightarrow> policy_config \<Rightarrow> mparam \<Rightarrow> input_data \<Rightarrow> nat \<Rightarrow> mat \<Rightarrow> mat" where
  "ks_csmp env pc mp inp t k_cross =
     clip_csmp (c_share_of env pc (ks_state env mp inp t k_cross)) (ks_wealth mp inp t k_cross)"

fun ks_body :: "collaborators \<Rightarrow> policy_config \<Rightarrow> mparam \<Rightarrow> input_data \<Rightarrow> nat
    \<Rightarrow> mat \<times> acc \<Rightarrow> error + mat \<times> acc" where
  "ks_body env pc mp inp t (k_cross, util_sum) =
     (if t = t_unroll pc - 1 then
        (case terminal_value env (ks_state env mp inp t k_cross) of
           Inl e \<Rightarrow> Inl e
         | Inr v \<Rightarrow> Inr (k_cross, acc_add util_sum (map (map (\<lambda>x. discount mp t * x)) v)))
      else
        (let wealth = ks_wealth mp inp t k_cross;
             csmp = ks_csmp env pc mp inp t k_cross
         in Inr (mat_sub wealth csmp,
                 acc_add util_sum (map (map (\<lambda>c. discount mp t * ln c)) csmp))))"

declare ks_body.simps [simp del]

definition ks_loss :: "collaborators \<Rightarrow> policy_config \<Rightarrow> mparam \<Rightarrow> input_data \<Rightarrow> error + output_dict" where
  "ks_loss env pc mp inp =
     (case for_range (ks_body env pc mp inp) [0..<t_unroll pc] (in_k_cross inp, Scalar 0) of
        Inl e \<Rightarrow> Inl e
      | Inr (k_cross, util_sum) \<Rightarrow> output_of pc util_sum None k_cross)"

section \<open>The Davila variant\<close>

text \<open>
  The wage weight of the idiosyncratic state, written out in the source at each use:
  it is \<open>epsilon_0\<close>, \<open>epsilon_1\<close>, \<open>epsilon_2\<close> at the states 0, 1, 2.
\<close>

definition idio_weight :: "mparam \<Rightarrow> real \<Rightarrow> real" where
  "idio_weight mp i =
     epsilon_0 mp * (1 - i) * (2 - i) / 2 + epsilon_1 mp * i * (2 - i)
       + epsilon_2 mp * i * (i - 1) / 2"

definition davila_wealth_row :: "mparam \<Rightarrow> real list \<Rightarrow> real list \<Rightarrow> real list" where
  "davila_wealth_row mp k_row i_row =
     (let k_mean = reduce_mean k_row;
          emp = emp_g mp;
          R = 1 - delta mp + alpha mp * (k_mean / emp) powr (alpha mp - 1);
          wage = (1 - alpha mp) * (k_mean / emp) powr (alpha mp)
      in map2 (\<lambda>k i. R * k + wage * idio_weight mp i) k_row i_row)"

definition davila_wealth :: "mparam \<Rightarrow> input_data \<Rightarrow> nat \<Rightarrow> mat \<Rightarrow> mat" where
  "davila_wealth mp inp t k_cross =
     map2 (davila_wealth_row mp) k_cross (ishock_at (in_ishock inp) t)"

text \<open>The Davila state has no aggregate column and is not normalised.\<close>

definition davila_state :: "mparam \<Rightarrow> input_data \<Rightarrow> nat \<Rightarrow> mat \<Rightarrow> state_dict" where
  "davila_state mp inp t k_cross =
     \<lparr>basic_s = map2 (\<lambda>k_row i_row.
          map2 (\<lambda>(k, k_mean) i. [k, k_mean, i])
            (zip k_row (replicate (n_agt mp) (reduce_mean k_row))) i_row)
          k_cross (ishock_at (in_ishock inp) t),
      agt_s = expand_dims k_cross\<rparr>"

definition davila_csmp :: "collaborators \<Rightarrow> policy_config \<Rightarrow> mparam \<Rightarrow> input_data \<Rightarrow> nat \<Rightarrow> mat \<Rightarrow> mat" where
  "davila_csmp env pc mp inp t k_cross =
     map2 (map2 (\<lambda>s w. s * w)) (c_share_of env pc (davila_state mp inp t k_cross))
       (davila_wealth mp inp t k_cross)"

text \<open>
  The gradient penalty: \<^verbatim>\<open>tape.gradient(csmp_gp, k_cross)\<close> is the collaborator
  \<open>tape_gradient\<close>; the penalty is the rectified negative of that gradient times
  \<open>ln 10\<close> times capital.
\<close>

definition davila_gp :: "collaborators \<Rightarrow> nat \<Rightarrow> mat \<Rightarrow> mat" where
  "davila_gp env t k_cross =
     map2 (map2 (\<lambda>g k. max (- (g * ln 10 * k)) 0)) (tape_gradient env t k_cross) k_cross"

fun davila_body :: "collaborators \<Rightarrow> policy_config \<Rightarrow> mparam \<Rightarrow> input_data \<Rightarrow> nat
    \<Rightarrow> mat \<times> acc \<times> acc \<Rightarrow> error + mat \<times> acc \<times> acc" where
  "davila_body env pc mp inp t (k_cross, util_sum, gp) =
     (if t = t_unroll pc - 1 then
        (case terminal_value env (davila_state mp inp t k_cross) of
           Inl e \<Rightarrow> Inl e
         | Inr v \<Rightarrow> Inr (k_cross, acc_add util_sum (map (map (\<lambda>x. discount mp t * x)) v), gp))
      else
        (let wealth = davila_wealth mp inp t k_cross;
             csmp = davila_csmp env pc mp inp t k_cross
         in Inr (mat_sub wealth csmp,
                 acc_add util_sum (map (map (\<lambda>c. discount mp t * (1 - 1 / c))) csmp),
                 acc_add gp (davila_gp env t k_cross))))"

declare davila_body.simps [simp del]

definition davila_loss :: "collaborators \<Rightarrow> policy_config \<Rightarrow> mparam \<Rightarrow> input_data \<Rightarrow> error + output_dict" where
  "davila_loss env pc mp inp =
     (case for_range (davila_body env pc mp inp) [0..<t_unroll pc]
             (in_k_cross inp, Scalar 0, Scalar 0) of
        Inl e \<Rightarrow> Inl e
      | Inr (k_cross, util_sum, gp) \<Rightarrow>
          output_of pc util_sum
            (Some (case gp of Scalar r \<Rightarrow> r | Tensor g \<Rightarrow> reduce_mean_all g)) k_cross)"

section \<open>The DavilaAS variant\<close>

definition davilaas_wealth_row :: "mparam \<Rightarrow> real \<Rightarrow> real list \<Rightarrow> real list \<Rightarrow> real list" where
  "davilaas_wealth_row mp a k_row i_row =
     (let k_mean = reduce_mean k_row;
          emp = (if a < 1 then emp_b mp else emp_g mp);
          R = 1 - delta mp + a * alpha mp * (k_mean / emp) powr (alpha mp - 1);
          wage = a * (1 - alpha mp) * (k_mean / emp) powr (alpha mp)
      in map2 (\<lambda>k i. R * k + wage * idio_weight mp i) k_row i_row)"

definition davilaas_wealth :: "mparam \<Rightarrow> input_data \<Rightarrow> nat \<Rightarrow> mat \<Rightarrow> mat" where
  "davilaas_wealth mp inp t k_cross =
     map2 (\<lambda>a (k_row, i_row). davilaas_wealth_row mp a k_row i_row)
       (ashock_at (in_ashock inp) t) (zip k_cross (ishock_at (in_ishock inp) t))"

definition davilaas_csmp :: "collaborators \<Rightarrow> policy_config \<Rightarrow> mparam \<Rightarrow> input_data \<Rightarrow> nat \<Rightarrow> mat \<Rightarrow> mat" where
  "davilaas_csmp env pc mp inp t k_cross =
     clip_csmp (c_share_of env pc (ks_state env mp inp t k_cross))
       (davilaas_wealth mp inp t k_cross)"

fun davilaas_body :: "collaborators \<Rightarrow> policy_config \<Rightarrow> mparam \<Rightarrow> input_data \<Rightarrow> nat
    \<Rightarrow> mat \<times> acc \<Rightarrow> error + mat \<times> acc" where
  "davilaas_body env pc mp inp t (k_cross, util_sum) =
     (if t = t_unroll pc - 1 then
        (case terminal_value env (ks_state env mp inp t k_cross) of
           Inl e \<Rightarrow> Inl e
         | Inr v \<Rightarrow> Inr (k_cross, acc_add util_sum (map (map (\<lambda>x. discount mp t * x)) v)))
      else
        (let wealth = davilaas_wealth mp inp t k_cross;
             csmp = davilaas_csmp env pc mp inp t k_cross
         in Inr (mat_sub wealth csmp,
                 acc_add util_sum (map (map (\<lambda>c. discount mp t * (1 - 1 / c))) csmp))))"

declare davilaas_body.simps [simp del]

definition davilaas_loss :: "collaborators \<Rightarrow> policy_config \<Rightarrow> mparam \<Rightarrow> input_data \<Rightarrow> error + output_dict" where
  "davilaas_loss env pc mp inp =
     (case for_range (davilaas_body env pc mp inp) [0..<t_unroll pc] (in_k_cross inp, Scalar 0) of
        Inl e \<Rightarrow> Inl e
      | Inr (k_cross, util_sum) \<Rightarrow> output_of pc util_sum None k_cross)"

section \<open>The JFV variant\<close>

text \<open>
  One sample path of a JFV period: \<open>n\<close> is the path's aggregate state \<^verbatim>\<open>N\<close>,
  \<open>a\<close> its aggregate shock at the period.
\<close>

definition jfv_K :: "real \<Rightarrow> real list \<Rightarrow> real" where
  "jfv_K n k_row = n + reduce_mean k_row"

definition jfv_wealth_row :: "mparam \<Rightarrow> real \<Rightarrow> real list \<Rightarrow> real list \<Rightarrow> real list" where
  "jfv_wealth_row mp n k_row i_row =
     (let K = jfv_K n k_row;
          wage_unit = (1 - alpha mp) * K powr (alpha mp);
          r = alpha mp * K powr (alpha mp - 1) - delta mp - sigma2 mp * K / n
      in map2 (\<lambda>k i. (1 + r * dt mp) * k + ((i * (z2 mp - z1 mp) + z1 mp) * wage_unit) * dt mp)
           k_row i_row)"

definition jfv_wealth :: "mparam \<Rightarrow> input_data \<Rightarrow> nat \<Rightarrow> mat \<Rightarrow> vec \<Rightarrow> mat" where
  "jfv_wealth mp inp t k_cross N =
     map2 (\<lambda>n (k_row, i_row). jfv_wealth_row mp n k_row i_row)
       N (zip k_cross (ishock_at (in_ishock inp) t))"

definition jfv_state :: "collaborators \<Rightarrow> mparam \<Rightarrow> input_data \<Rightarrow> nat \<Rightarrow> mat \<Rightarrow> vec \<Rightarrow> state_dict" where
  "jfv_state env mp inp t k_cross N =
     full_state_dict env mp k_cross N (ishock_at (in_ishock inp) t)"

definition jfv_clip_csmp :: "mparam \<Rightarrow> mat \<Rightarrow> mat \<Rightarrow> mat" where
  "jfv_clip_csmp mp c_share wealth =
     map2 (map2 (\<lambda>s w. clip_by_value (s * w / dt mp) EPSILON (w / dt mp - EPSILON)))
       c_share wealth"

definition jfv_csmp :: "collaborators \<Rightarrow> policy_config \<Rightarrow> mparam \<Rightarrow> input_data \<Rightarrow> nat \<Rightarrow> mat \<Rightarrow> vec \<Rightarrow> mat" where
  "jfv_csmp env pc mp inp t k_cross N =
     jfv_clip_csmp mp (c_share_of env pc (jfv_state env mp inp t k_cross N))
       (jfv_wealth mp inp t k_cross N)"

definition jfv_k_next :: "mparam \<Rightarrow> mat \<Rightarrow> mat \<Rightarrow> mat" where
  "jfv_k_next mp wealth csmp = map2 (map2 (\<lambda>w c. w - c * dt mp)) wealth csmp"

definition jfv_N_next_row :: "mparam \<Rightarrow> real \<Rightarrow> real \<Rightarrow> real list \<Rightarrow> real" where
  "jfv_N_next_row mp n a k_row =
     (let k_mean = reduce_mean k_row;
          K = jfv_K n k_row;
          dN_drift = dt mp * (alpha mp * K powr (alpha mp - 1) - delta mp - rhohat mp
                       - sigma2 mp * (- k_mean / n) * (K / n)) * n;
          dN_diff = K * a
      in max (n + dN_drift + dN_diff) (1 / 100))"

definition jfv_N_next :: "mparam \<Rightarrow> input_data \<Rightarrow> nat \<Rightarrow> mat \<Rightarrow> vec \<Rightarrow> vec" where
  "jfv_N_next mp inp t k_cross N =
     map2 (\<lambda>(n, a) k_row. jfv_N_next_row mp n a k_row)
       (zip N (ashock_at (in_ashock inp) t)) k_cross"

fun jfv_body :: "collaborators \<Rightarrow> policy_config \<Rightarrow> mparam \<Rightarrow> input_data \<Rightarrow> nat
    \<Rightarrow> mat \<times> vec \<times> acc \<Rightarrow> error + mat \<times> vec \<times> acc" where
  "jfv_body env pc mp inp t (k_cross, N, util_sum) =
     (if t = t_unroll pc - 1 then
        (case terminal_value env (jfv_state env mp inp t k_cross N) of
           Inl e \<Rightarrow> Inl e
         | Inr v \<Rightarrow> Inr (k_cross, N,
             acc_add (acc_times util_sum (dt mp)) (map (map (\<lambda>x. discount mp t * x)) v)))
      else
        (let wealth = jfv_wealth mp inp t k_cross N;
             csmp = jfv_csmp env pc mp inp t k_cross N
         in Inr (jfv_k_next mp wealth csmp,
                 jfv_N_next mp inp t k_cross N,
                 acc_add util_sum (map (map (\<lambda>c. discount mp t * (1 - 1 / c))) csmp))))"

declare jfv_body.simps [simp del]

definition jfv_loss :: "collaborators \<Rightarrow> policy_config \<Rightarrow> mparam \<Rightarrow> input_data \<Rightarrow> error + output_dict" where
  "jfv_loss env pc mp inp =
     (case for_range (jfv_body env pc mp inp) [0..<t_unroll pc]
             (in_k_cross inp, in_N inp, Scalar 0) of
        Inl e \<Rightarrow> Inl e
      | Inr (k_cross, N, util_sum) \<Rightarrow> output_of pc util_sum None k_cross)"

subsection \<open>The JFV objective as the specification words it\<close>

text \<open>
  The specification describes the JFV objective as the sum, over the non-terminal
  periods, of the per-period utilities each scaled by \<open>dt\<close>, plus the discounted terminal
  value. The following definitions follow those words, to be compared with the loop of
  the source, which scales the running sum once, at the terminal period.
  \<open>jfv_body_scaled\<close> is the loop body that scales each utility as it is accumulated;
  \<open>jfv_path\<close> is the state at the start of a period, \<open>jfv_csmp_at\<close> the consumption of
  that period, and \<open>jfv_objective_sum\<close> the sum for one entry, given the terminal value.
\<close>

fun jfv_body_scaled :: "collaborators \<Rightarrow> policy_config \<Rightarrow> mparam \<Rightarrow> input_data \<Rightarrow> nat
    \<Rightarrow> mat \<times> vec \<times> acc \<Rightarrow> error + mat \<times> vec \<times> acc" where
  "jfv_body_scaled env pc mp inp t (k_cross, N, util_sum) =
     (if t = t_unroll pc - 1 then
        (case terminal_value env (jfv_state env mp inp t k_cross N) of
           Inl e \<Rightarrow> Inl e
         | Inr v \<Rightarrow> Inr (k_cross, N,
             acc_add util_sum (map (map (\<lambda>x. discount mp t * x)) v)))
      else
        (let wealth = jfv_wealth mp inp t k_cross N;
             csmp = jfv_csmp env pc mp inp t k_cross N
         in Inr (jfv_k_next mp wealth csmp,
                 jfv_N_next mp inp t k_cross N,
                 acc_add util_sum
                   (map (map (\<lambda>c. dt mp * discount mp t * (1 - 1 / c))) csmp))))"

declare jfv_body_scaled.simps [simp del]

definition jfv_loss_scaled :: "collaborators \<Rightarrow> policy_config \<Rightarrow> mparam \<Rightarrow> input_data \<Rightarrow> error + output_dict" where
  "jfv_loss_scaled env pc mp inp =
     (case for_range (jfv_body_scaled env pc mp inp) [0..<t_unroll pc]
             (in_k_cross inp, in_N inp, Scalar 0) of
        Inl e \<Rightarrow> Inl e
      | Inr (k_cross, N, util_sum) \<Rightarrow> output_of pc util_sum None k_cross)"

fun jfv_path :: "collaborators \<Rightarrow> policy_config \<Rightarrow> mparam \<Rightarrow> input_data \<Rightarrow> nat \<Rightarrow> mat \<times> vec" where
  "jfv_path env pc mp inp 0 = (in_k_cross inp, in_N inp)"
| "jfv_path env pc mp inp (Suc t) =
     (case jfv_path env pc mp inp t of
        (k_cross, N) \<Rightarrow>
          (jfv_k_next mp (jfv_wealth mp inp t k_cross N) (jfv_csmp env pc mp inp t k_cross N),
           jfv_N_next mp inp t k_cross N))"

definition jfv_csmp_at :: "collaborators \<Rightarrow> policy_config \<Rightarrow> mparam \<Rightarrow> input_data \<Rightarrow> nat \<Rightarrow> mat" where
  "jfv_csmp_at env pc mp inp t =
     (case jfv_path env pc mp inp t of (k_cross, N) \<Rightarrow> jfv_csmp env pc mp inp t k_cross N)"

definition jfv_terminal_state :: "collaborators \<Rightarrow> policy_config \<Rightarrow> mparam \<Rightarrow> input_data \<Rightarrow> state_dict" where
  "jfv_terminal_state env pc mp inp =
     (case jfv_path env pc mp inp (t_unroll pc - 1) of
        (k_cross, N) \<Rightarrow> jfv_state env mp inp (t_unroll pc - 1) k_cross N)"

definition jfv_objective_sum :: "collaborators \<Rightarrow> policy_config \<Rightarrow> mparam \<Rightarrow> input_data
    \<Rightarrow> mat \<Rightarrow> nat \<Rightarrow> nat \<Rightarrow> real" where
  "jfv_objective_sum env pc mp inp v p j =
     (\<Sum>t<t_unroll pc - 1.
        dt mp * beta mp ^ t * (1 - 1 / (jfv_csmp_at env pc mp inp t ! p ! j)))
     + beta mp ^ (t_unroll pc - 1) * (v ! p ! j)"

text \<open>
  An accumulator holds the value \<open>f p j\<close> at every entry \<open>(p, j)\<close>; a number stands
  for a tensor with that number at every entry.
\<close>

definition acc_entries :: "acc \<Rightarrow> (nat \<Rightarrow> nat \<Rightarrow> real) \<Rightarrow> bool" where
  "acc_entries u f =
     (case u of
        Scalar r \<Rightarrow> \<forall>p j. f p j = r
      | Tensor U \<Rightarrow> \<forall>p<length U. \<forall>j<length (U ! p). U ! p ! j = f p j)"

section \<open>Sampling and the training loop\<close>

text \<open>
  The training loop is modelled over an abstract world \<open>'w\<close> that holds everything the
  loop does not inspect: the policy dataset, the network weights, the optimizer and the
  random generators. The methods the loop calls on it are the fields of \<open>hooks\<close>; each
  returns a result or an error together with the new world. On the abstract base class
  \<^verbatim>\<open>simul_shocks\<close>, \<^verbatim>\<open>update_policydataset\<close>, \<^verbatim>\<open>get_valuedataset\<close> and
  \<^verbatim>\<open>loss\<close> raise \<^verbatim>\<open>NotImplementedError\<close>. Every call is recorded in a trace;
  the calls of the value retraining carry the global step at which they are made.
  Writing the summaries and printing are not modelled.
\<close>

datatype event =
    NextBatch int
  | SimulShocks int
  | UpdatePolicyDataset bool
  | TrainStep
  | GetValueDataset int bool
  | VtrTrain int nat
  | ValidLoss

record 'w hooks =
  next_batch :: "int \<Rightarrow> 'w \<Rightarrow> (error + input_data) \<times> 'w"
  simul_shocks :: "int \<Rightarrow> 'w \<Rightarrow> (error + mat \<times> tensor3) \<times> 'w"
  epoch_used :: "'w \<Rightarrow> int"
  update_policydataset :: "bool \<Rightarrow> 'w \<Rightarrow> (error + unit) \<times> 'w"
  train_step :: "input_data \<Rightarrow> 'w \<Rightarrow> (error + real) \<times> 'w"
  get_valuedataset :: "bool \<Rightarrow> 'w \<Rightarrow> (error + unit) \<times> 'w"
  vtr_train :: "nat \<Rightarrow> 'w \<Rightarrow> (error + unit) \<times> 'w"
  loss_valid :: "'w \<Rightarrow> (error + real) \<times> 'w"

record config =
  policy_config :: policy_config
  value_sampling :: string
  num_vnet :: nat

type_synonym ('a, 'w) prog = "'w \<times> event list \<Rightarrow> (error + 'a) \<times> ('w \<times> event list)"

definition return :: "'a \<Rightarrow> ('a, 'w) prog" where
  "return a s = (Inr a, s)"

definition raise :: "error \<Rightarrow> ('a, 'w) prog" where
  "raise e s = (Inl e, s)"

definition bind :: "('a, 'w) prog \<Rightarrow> ('a \<Rightarrow> ('b, 'w) prog) \<Rightarrow> ('b, 'w) prog" where
  "bind m f s = (case m s of (Inl e, s') \<Rightarrow> (Inl e, s') | (Inr a, s') \<Rightarrow> f a s')"

definition call :: "event \<Rightarrow> ('w \<Rightarrow> (error + 'a) \<times> 'w) \<Rightarrow> ('a, 'w) prog" where
  "call ev f s = (case s of (w, tr) \<Rightarrow> (case f w of (r, w') \<Rightarrow> (r, (w', tr @ [ev]))))"

fun for_each :: "('i \<Rightarrow> 'v \<Rightarrow> ('v, 'w) prog) \<Rightarrow> 'i list \<Rightarrow> 'v \<Rightarrow> ('v, 'w) prog" where
  "for_each body [] v = return v"
| "for_each body (i # is) v = bind (body i v) (for_each body is)"

text \<open>Python's \<^verbatim>\<open>range(n)\<close> for an integer \<open>n\<close>: empty when \<open>n \<le> 0\<close>.\<close>

definition py_range :: "int \<Rightarrow> int list" where
  "py_range n = map int [0..<nat n]"

definition sampler :: "'w hooks \<Rightarrow> policy_config \<Rightarrow> int \<Rightarrow> bool \<Rightarrow> (input_data, 'w) prog" where
  "sampler h pc batch_size upd_init =
     bind (call (NextBatch batch_size) (next_batch h batch_size)) (\<lambda>train_data.
     bind (call (SimulShocks batch_size) (simul_shocks h batch_size)) (\<lambda>shocks.
     bind (\<lambda>s. if epoch_used h (fst s) > epoch_resample pc
               then call (UpdatePolicyDataset upd_init) (update_policydataset h upd_init) s
               else return () s) (\<lambda>_.
     return (train_data\<lparr>in_ashock := fst shocks, in_ishock := snd shocks\<rparr>))))"

text \<open>
  The value retraining of one step: the value datasets are requested and every value
  trainer is trained, in order.
\<close>

definition retrain_values :: "'w hooks \<Rightarrow> config \<Rightarrow> int \<Rightarrow> bool \<Rightarrow> (unit, 'w) prog" where
  "retrain_values h cfg n_step upd_init =
     bind (call (GetValueDataset n_step upd_init) (get_valuedataset h upd_init)) (\<lambda>_.
     for_each (\<lambda>i _. call (VtrTrain n_step i) (vtr_train h i)) [0..<num_vnet cfg] ())"

text \<open>
  One inner step of \<^verbatim>\<open>train\<close>. The local variables it carries are \<^verbatim>\<open>update_init\<close>
  and \<^verbatim>\<open>k_end\<close>, unbound until the first step has run.
\<close>

definition train_inner :: "'w hooks \<Rightarrow> config \<Rightarrow> int \<Rightarrow> int \<Rightarrow> int
    \<Rightarrow> bool \<times> real option \<Rightarrow> (bool \<times> real option, 'w) prog" where
  "train_inner h cfg batch_size n step locals =
     (let pc = policy_config cfg; upd_init = fst locals in
      bind (sampler h pc batch_size upd_init) (\<lambda>train_data.
      bind (call TrainStep (train_step h train_data)) (\<lambda>k_end.
      let n_step = n * freq_valid pc + step in
      bind (if value_sampling cfg \<noteq> ''bchmk'' then
              (if freq_update_v pc = 0 then raise ZeroDivisionError
               else if n_step mod freq_update_v pc = 0 \<and> n_step > 0 then
                 bind (retrain_values h cfg n_step (update_init pc)) (\<lambda>_. return (update_init pc))
               else return upd_init)
            else return upd_init) (\<lambda>upd_init'.
      return (upd_init', Some k_end)))))"

definition train_epoch :: "'w hooks \<Rightarrow> config \<Rightarrow> int \<Rightarrow> int
    \<Rightarrow> bool \<times> real option \<Rightarrow> (bool \<times> real option, 'w) prog" where
  "train_epoch h cfg batch_size n locals =
     bind (for_each (train_inner h cfg batch_size n) (py_range (freq_valid (policy_config cfg))) locals)
       (\<lambda>locals'.
     bind (call ValidLoss (loss_valid h)) (\<lambda>val_output.
     (case snd locals' of
        None \<Rightarrow> raise UnboundLocalError
      | Some k \<Rightarrow> return locals')))"

definition train :: "'w hooks \<Rightarrow> config \<Rightarrow> int option \<Rightarrow> int option \<Rightarrow> (unit, 'w) prog" where
  "train h cfg num_step batch_size =
     (let pc = policy_config cfg in
      if lr_beg pc = 0 then raise ZeroDivisionError
      else case batch_size of
        None \<Rightarrow> raise TypeError
      | Some bs \<Rightarrow>
          if \<not> bs \<le> valid_size pc then raise AssertionError
          else
            bind (call (SimulShocks (valid_size pc)) (simul_shocks h (valid_size pc))) (\<lambda>_.
            case num_step of
              None \<Rightarrow> raise TypeError
            | Some ns \<Rightarrow>
                if freq_valid pc = 0 then raise ZeroDivisionError
                else
                  bind (for_each (train_epoch h cfg bs) (py_range (ns div freq_valid pc)) (False, None))
                    (\<lambda>_. return ())))"

subsection \<open>What a program adds to the trace\<close>

text \<open>
  \<open>emits P m\<close>: whatever the state, running \<open>m\<close> only appends to the trace, and every
  event it appends satisfies \<open>P\<close>. \<open>retrain_cond\<close> is the guard of the value retraining in
  \<^verbatim>\<open>train\<close>, as a condition on the global step; \<open>retrain_at_allowed_step\<close> holds of an
  event unless it is a call of the value retraining at a step that fails the guard.
\<close>

definition emits :: "(event \<Rightarrow> bool) \<Rightarrow> ('a, 'w) prog \<Rightarrow> bool" where
  "emits P m = (\<forall>s. \<exists>new. snd (snd (m s)) = snd s @ new \<and> (\<forall>e \<in> set new. P e))"

definition retrain_cond :: "config \<Rightarrow> int \<Rightarrow> bool" where
  "retrain_cond cfg n_step =
     (value_sampling cfg \<noteq> ''bchmk'' \<and> n_step mod freq_update_v (policy_config cfg) = 0
      \<and> n_step > 0)"

fun retrain_at_allowed_step :: "config \<Rightarrow> event \<Rightarrow> bool" where
  "retrain_at_allowed_step cfg (GetValueDataset k u) = retrain_cond cfg k"
| "retrain_at_allowed_step cfg (VtrTrain k i) = retrain_cond cfg k"
| "retrain_at_allowed_step cfg e = True"

section \<open>Rounding to float64\<close>

text \<open>
  The tensors of the trainer have \<open>DTYPE = float64\<close>. Where a property depends on the
  rounding, an operation is computed exactly and then rounded to the nearest float64,
  ties to even: \<open>rhe\<close> rounds a real to the nearest integer, ties to even, and \<open>fl64\<close>
  rounds a real to 53 significant bits. The exponent is not bounded: overflow and
  subnormal numbers are outside this model, and the exponential is taken as correctly
  rounded.
\<close>

definition rhe :: "real \<Rightarrow> int" where
  "rhe t =
     (let f = \<lfloor>t\<rfloor>; r = t - of_int f
      in if r < 1 / 2 then f else if 1 / 2 < r then f + 1 else if even f then f else f + 1)"

definition fl64 :: "real \<Rightarrow> real" where
  "fl64 x =
     (if x = 0 then 0
      else let e = \<lfloor>log 2 \<bar>x\<bar>\<rfloor>; ulp = 2 powr (of_int e - 52)
           in of_int (rhe (x / ulp)) * ulp)"

text \<open>\<open>tf.sigmoid\<close> on float64: \<open>1 / (1 + exp (- x))\<close>, each operation rounded.\<close>

definition sigmoid64 :: "real \<Rightarrow> real" where
  "sigmoid64 x = fl64 (1 / fl64 (1 + fl64 (exp (- x))))"

text \<open>\<open>policy_fn\<close> in float64: the product with \<open>sgm_scale\<close> and the sigmoid are rounded.\<close>

definition policy_fn64 :: "collaborators \<Rightarrow> policy_config \<Rightarrow> state_dict \<Rightarrow> mat" where
  "policy_fn64 env pc input =
     (let state = prepare_state env input
      in map (map (\<lambda>z. sigmoid64 (fl64 (sgm_scale pc * z)))) (model env state))"

text \<open>
  The two assignments \<open>csmp = c_share * wealth\<close> and \<open>k_cross = wealth - csmp\<close> of a
  non-terminal period of the Davila loss in float64, on the state and the float64 wealth
  of the period. In game mode the share of the agents after the first goes through
  \<open>stop_gradient\<close>, which leaves its value unchanged.
\<close>

definition davila_step64 :: "collaborators \<Rightarrow> policy_config \<Rightarrow> state_dict \<Rightarrow> mat \<Rightarrow> mat \<times> mat" where
  "davila_step64 env pc sd wealth =
     (let c_share = policy_fn64 env pc sd;
          csmp = map2 (map2 (\<lambda>s w. fl64 (s * w))) c_share wealth;
          k_cross = map2 (map2 (\<lambda>w c. fl64 (w - c))) wealth csmp
      in (csmp, k_cross))"

section \<open>Concrete inputs for evaluation\<close>

text \<open>
  A trainer with one sample path and one agent, a horizon of two periods (period 0
  is not terminal), a policy network that returns the given output whatever its input, one
  value trainer that returns 0, and identity normalisation.
\<close>

definition example_env :: "mat \<Rightarrow> collaborators" where
  "example_env out =
     \<lparr>prepare_state = basic_s, model = (\<lambda>_. out), vtrainers = [\<lambda>_. [[0]]],
      normalize_data = (\<lambda>_ x. x), unnormalize_data = (\<lambda>_ x. x),
      tape_gradient = (\<lambda>_ k. k)\<rparr>"

text \<open>The same trainer with a policy network that returns the sum of each agent's state.\<close>

definition example_env_sum :: collaborators where
  "example_env_sum = (example_env [])\<lparr>model := map (map sum_list)\<rparr>"

text \<open>The same trainer with two value trainers, which return 2 and 4.\<close>

definition example_env_two_values :: collaborators where
  "example_env_two_values = (example_env [[0]])\<lparr>vtrainers := [\<lambda>_. [[2]], \<lambda>_. [[4]]]\<rparr>"

definition example_pc :: "string \<Rightarrow> policy_config" where
  "example_pc opt =
     \<lparr>t_unroll = 2, valid_size = 8, sgm_scale = 1, opt_type = opt, freq_valid = 2,
      freq_update_v = 1, update_init = False, epoch_resample = 0,
      lr_beg = 1 / 1000, lr_end = 1 / 10000\<rparr>"

definition example_mparam :: mparam where
  "example_mparam =
     \<lparr>beta = 24 / 25, delta = 1 / 10, alpha = 9 / 25, n_agt = 1,
      tau_b = 1 / 10, tau_g = 1 / 10, l_bar = 1, er_b = 9 / 10, er_g = 24 / 25, mu = 3 / 20,
      emp_b = 9 / 10, emp_g = 1, epsilon_0 = 1 / 5, epsilon_1 = 1, epsilon_2 = 3,
      dt = 1 / 10, sigma2 = 0, z1 = 1 / 2, z2 = 3 / 2, rhohat = 1 / 20\<rparr>"

definition example_input :: "real \<Rightarrow> real \<Rightarrow> real \<Rightarrow> real \<Rightarrow> input_data" where
  "example_input k n a i =
     \<lparr>in_k_cross = [[k]], in_N = [n], in_ashock = [[a, a]], in_ishock = [[[i, i]]]\<rparr>"

text \<open>
  Hooks over a world that is the policy dataset's usage counter: taking a batch advances
  the counter, regenerating the dataset resets it, and no call fails. The configuration
  has one value trainer and a value sampling other than the benchmark.
\<close>

definition example_hooks :: "int hooks" where
  "example_hooks =
     \<lparr>next_batch = (\<lambda>b w. (Inr (example_input 1 1 0 0), w + 1)),
      simul_shocks = (\<lambda>b w. (Inr ([[0, 0]], [[[0, 0]]]), w)),
      epoch_used = (\<lambda>w. w),
      update_policydataset = (\<lambda>u w. (Inr (), 0)),
      train_step = (\<lambda>d w. (Inr 1, w)),
      get_valuedataset = (\<lambda>u w. (Inr (), w)),
      vtr_train = (\<lambda>i w. (Inr (), w)),
      loss_valid = (\<lambda>w. (Inr 0, w))\<rparr>"

definition example_config :: config where
  "example_config =
     \<lparr>policy_config = example_pc ''socialplanner'', value_sampling = ''nn'', num_vnet = 1\<rparr>"

section \<open>Elementary facts\<close>

lemma sigmoid_pos: "0 < sigmoid x"
  unfolding sigmoid_def by (simp add: add_pos_pos)

lemma sigmoid_less_1: "sigmoid x < 1"
proof -
  have "0 < exp (- x)" by simp
  then have "1 < 1 + exp (- x)" by linarith
  then have "1 / (1 + exp (- x)) < 1"
    by (subst divide_less_eq_1_pos) (simp_all add: add_pos_pos)
  then show ?thesis unfolding sigmoid_def .
qed

lemma policy_fn_elem:
  assumes "row \<in> set (policy_fn env pc input)" and "c \<in> set row"
  shows "0 < c \<and> c < 1"
  using assms unfolding policy_fn_def Let_def by (auto simp: sigmoid_pos sigmoid_less_1)

lemma game_share_id: "game_share pc c = c"
  unfolding game_share_def stop_gradient_def by (simp add: map_idI)

lemma c_share_of_nth:
  assumes "p < length (c_share_of env pc sd)" and "j < length (c_share_of env pc sd ! p)"
  shows "0 < c_share_of env pc sd ! p ! j \<and> c_share_of env pc sd ! p ! j < 1"
proof -
  let ?m = "policy_fn env pc sd"
  from assms have "p < length ?m" and "j < length (?m ! p)"
    by (simp_all add: c_share_of_def game_share_id)
  then have "?m ! p \<in> set ?m" and "?m ! p ! j \<in> set (?m ! p)" by simp_all
  then have "0 < ?m ! p ! j \<and> ?m ! p ! j < 1" by (rule policy_fn_elem)
  then show ?thesis by (simp add: c_share_of_def game_share_id)
qed




lemma mat_sub_nth:
  assumes "p < length (mat_sub a b)" and "j < length (mat_sub a b ! p)"
  shows "mat_sub a b ! p ! j = a ! p ! j - b ! p ! j"
    and "p < length b" and "j < length (b ! p)"
  using assms unfolding mat_sub_def by simp_all



subsection \<open>One non-terminal period, entry by entry\<close>




lemma davila_period_nth:
  assumes "t \<noteq> t_unroll pc - 1"
    and "davila_body env pc mp inp t (k_cross, util_sum, gp) = Inr (k_cross', util_sum', gp')"
    and "p < length k_cross'" and "j < length (k_cross' ! p)"
  shows "davila_csmp env pc mp inp t k_cross ! p ! j
       = c_share_of env pc (davila_state mp inp t k_cross) ! p ! j
           * davila_wealth mp inp t k_cross ! p ! j"
    and "k_cross' ! p ! j
       = davila_wealth mp inp t k_cross ! p ! j - davila_csmp env pc mp inp t k_cross ! p ! j"
    and "0 < c_share_of env pc (davila_state mp inp t k_cross) ! p ! j"
    and "c_share_of env pc (davila_state mp inp t k_cross) ! p ! j < 1"
proof -
  let ?w = "davila_wealth mp inp t k_cross" and ?c = "davila_csmp env pc mp inp t k_cross"
  let ?s = "c_share_of env pc (davila_state mp inp t k_cross)"
  from assms(1,2) have k': "k_cross' = mat_sub ?w ?c" by (simp add: davila_body.simps Let_def)
  from assms(3,4) k' have r: "p < length ?c" "j < length (?c ! p)"
    using mat_sub_nth[of p ?w ?c j] by simp_all
  from assms(3,4) k' show "k_cross' ! p ! j = ?w ! p ! j - ?c ! p ! j"
    using mat_sub_nth[of p ?w ?c j] by simp
  from r show "?c ! p ! j = ?s ! p ! j * ?w ! p ! j"
    unfolding davila_csmp_def by simp
  from r have "p < length ?s" and "j < length (?s ! p)"
    unfolding davila_csmp_def by simp_all
  then have "0 < ?s ! p ! j \<and> ?s ! p ! j < 1" by (rule c_share_of_nth)
  then show "0 < ?s ! p ! j" and "?s ! p ! j < 1" by simp_all
qed





lemma davila_period_facts:
  assumes "t < t_unroll pc - 1"
  shows "case davila_body env pc mp inp t (k_cross, util_sum, gp) of
           Inl e \<Rightarrow> False
         | Inr (k_cross', util_sum', gp') \<Rightarrow>
             \<forall>p<length k_cross'. \<forall>j<length (k_cross' ! p).
                 davila_csmp env pc mp inp t k_cross ! p ! j
                   = c_share_of env pc (davila_state mp inp t k_cross) ! p ! j
                       * davila_wealth mp inp t k_cross ! p ! j
               \<and> k_cross' ! p ! j
                   = davila_wealth mp inp t k_cross ! p ! j
                       - davila_csmp env pc mp inp t k_cross ! p ! j
               \<and> (0 \<le> davila_wealth mp inp t k_cross ! p ! j \<longrightarrow>
                    0 \<le> davila_csmp env pc mp inp t k_cross ! p ! j
                  \<and> davila_csmp env pc mp inp t k_cross ! p ! j
                      \<le> davila_wealth mp inp t k_cross ! p ! j
                  \<and> 0 \<le> k_cross' ! p ! j)"
proof -
  from assms have nt: "t \<noteq> t_unroll pc - 1" by simp
  then obtain k' u' g' where
    b: "davila_body env pc mp inp t (k_cross, util_sum, gp) = Inr (k', u', g')"
    by (simp add: davila_body.simps Let_def)
  have "davila_csmp env pc mp inp t k_cross ! p ! j
          = c_share_of env pc (davila_state mp inp t k_cross) ! p ! j
              * davila_wealth mp inp t k_cross ! p ! j
      \<and> k' ! p ! j = davila_wealth mp inp t k_cross ! p ! j
                       - davila_csmp env pc mp inp t k_cross ! p ! j
      \<and> (0 \<le> davila_wealth mp inp t k_cross ! p ! j \<longrightarrow>
           0 \<le> davila_csmp env pc mp inp t k_cross ! p ! j
         \<and> davila_csmp env pc mp inp t k_cross ! p ! j \<le> davila_wealth mp inp t k_cross ! p ! j
         \<and> 0 \<le> k' ! p ! j)"
    if "p < length k'" and "j < length (k' ! p)" for p j
  proof -
    let ?w = "davila_wealth mp inp t k_cross ! p ! j"
    let ?c = "davila_csmp env pc mp inp t k_cross ! p ! j"
    let ?s = "c_share_of env pc (davila_state mp inp t k_cross) ! p ! j"
    note c = davila_period_nth[OF nt b that]
    have s: "0 \<le> ?s" "?s \<le> 1" using c(3,4) by simp_all
    have pos: "0 \<le> ?c" if "0 \<le> ?w" unfolding c(1) using s that by simp
    have le: "?c \<le> ?w" if "0 \<le> ?w"
      unfolding c(1) using s that by (simp add: mult_left_le_one_le)
    from c(1,2) pos le show ?thesis by auto
  qed
  then show ?thesis by (simp only: b sum.case prod.case) blast
qed

subsection \<open>The example inputs evaluated\<close>

lemma example_share: "c_share_of (example_env [[0]]) (example_pc opt) sd = [[1 / 2]]"
  by (simp add: c_share_of_def game_share_id policy_fn_def example_env_def example_pc_def
      sigmoid_def)



lemma example_jfv_wealth:
  "jfv_wealth example_mparam (example_input (1 / 2) (1 / 2) a 0) 0 [[1 / 2]] [1 / 2]
     = [[109 / 200]]"
  by (simp add: jfv_wealth_def jfv_wealth_row_def jfv_K_def example_mparam_def example_input_def
      ishock_at_def reduce_mean_def)

lemma example_davila_wealth:
  "davila_wealth example_mparam (example_input 1 n a 1) 0 [[1]] = [[19 / 10]]"
  by (simp add: davila_wealth_def davila_wealth_row_def idio_weight_def example_mparam_def
      example_input_def ishock_at_def reduce_mean_def)



lemma example_dt: "dt example_mparam = 1 / 10"
  by (simp add: example_mparam_def)

lemma example_jfv_csmp:
  "jfv_csmp (example_env [[0]]) (example_pc opt) example_mparam
       (example_input (1 / 2) (1 / 2) a 0) 0 [[1 / 2]] [1 / 2]
     = [[109 / 40]]"
  by (simp add: jfv_csmp_def example_share example_jfv_wealth jfv_clip_csmp_def
      clip_by_value_def EPSILON_def example_dt)

lemma example_davila_csmp:
  "davila_csmp (example_env [[0]]) (example_pc opt) example_mparam (example_input 1 n a 1) 0 [[1]]
     = [[19 / 20]]"
  by (simp add: davila_csmp_def example_share example_davila_wealth)

lemma example_horizon: "t_unroll (example_pc opt) - 1 = 1"
  by (simp add: example_pc_def)

lemma example_t_unroll: "t_unroll (example_pc opt) = 2"
  by (simp add: example_pc_def)

lemma example_in_k_cross: "in_k_cross (example_input k n a i) = [[k]]"
  and example_in_N: "in_N (example_input k n a i) = [n]"
  by (simp_all add: example_input_def)



lemma example_jfv_body:
  "map_sum id fst (jfv_body (example_env [[0]]) (example_pc opt) example_mparam
       (example_input (1 / 2) (1 / 2) a 0) 0 ([[1 / 2]], [1 / 2], Scalar 0))
     = Inr [[109 / 400]]"
  by (simp add: jfv_body.simps example_t_unroll example_jfv_wealth example_jfv_csmp
      jfv_k_next_def example_dt)

lemma example_davila_body:
  "map_sum id fst (davila_body (example_env [[0]]) (example_pc opt) example_mparam
       (example_input 1 n a 1) 0 ([[1]], Scalar 0, Scalar 0))
     = Inr [[19 / 20]]"
  by (simp add: davila_body.simps example_t_unroll example_davila_wealth example_davila_csmp
      mat_sub_def)

subsection \<open>The Davila consumption under a network with constant output\<close>

lemma sigmoid_less_exp: "sigmoid x < exp x"
proof -
  have "exp x * (1 + exp (- x)) = exp x + 1"
    by (simp add: distrib_left exp_minus)
  then have "1 < exp x * (1 + exp (- x))" by simp
  moreover have "0 < 1 + exp (- x)" by (simp add: add_pos_pos)
  ultimately have "1 / (1 + exp (- x)) < exp x"
    by (simp add: pos_divide_less_eq)
  then show ?thesis unfolding sigmoid_def .
qed

lemma one_minus_sigmoid: "1 - sigmoid x = sigmoid (- x)"
proof -
  have p: "0 < 1 + exp x" "0 < 1 + exp (- x)" by (simp_all add: add_pos_pos)
  have "(1 + exp (- x)) * exp x = exp x + 1" by (simp add: distrib_right exp_minus)
  then have "1 + exp (- x) = (exp x + 1) / exp x" by (simp add: eq_divide_eq)
  then have "1 / (1 + exp (- x)) = exp x / (1 + exp x)" by (simp add: add.commute)
  then show ?thesis unfolding sigmoid_def using p by (simp add: field_simps)
qed

lemma davila_csmp_constant_net:
  assumes "p < length (davila_wealth mp inp t k_cross)"
    and "j < length (davila_wealth mp inp t k_cross ! p)"
  shows "davila_csmp (env\<lparr>model := \<lambda>_. map (map (\<lambda>_. z)) (davila_wealth mp inp t k_cross)\<rparr>)
            pc mp inp t k_cross ! p ! j
       = sigmoid (sgm_scale pc * z) * davila_wealth mp inp t k_cross ! p ! j"
  using assms by (simp add: davila_csmp_def c_share_of_def game_share_id policy_fn_def)

lemma davila_csmp_near_zero:
  assumes "p < length (davila_wealth mp inp t k_cross)"
    and "j < length (davila_wealth mp inp t k_cross ! p)"
    and "0 < davila_wealth mp inp t k_cross ! p ! j"
    and "sgm_scale pc \<noteq> 0" and "0 < m"
  shows "\<exists>net. 0 < davila_csmp (env\<lparr>model := net\<rparr>) pc mp inp t k_cross ! p ! j
             \<and> davila_csmp (env\<lparr>model := net\<rparr>) pc mp inp t k_cross ! p ! j < m"
proof -
  let ?w = "davila_wealth mp inp t k_cross ! p ! j"
  define z where "z = ln (m / ?w) / sgm_scale pc"
  have x: "sgm_scale pc * z = ln (m / ?w)" using assms(4) by (simp add: z_def)
  have r: "0 < m / ?w" using assms(3,5) by simp
  have "sigmoid (sgm_scale pc * z) < exp (ln (m / ?w))" unfolding x by (rule sigmoid_less_exp)
  also have "\<dots> = m / ?w" using r by simp
  finally have "sigmoid (sgm_scale pc * z) * ?w < m"
    using assms(3) by (simp add: pos_less_divide_eq)
  moreover have "0 < sigmoid (sgm_scale pc * z) * ?w" using assms(3) sigmoid_pos by simp
  ultimately show ?thesis
    by (intro exI[of _ "\<lambda>_. map (map (\<lambda>_. z)) (davila_wealth mp inp t k_cross)"])
       (simp only: davila_csmp_constant_net[OF assms(1,2)] simp_thms)
qed

lemma davila_csmp_near_wealth:
  assumes "p < length (davila_wealth mp inp t k_cross)"
    and "j < length (davila_wealth mp inp t k_cross ! p)"
    and "0 < davila_wealth mp inp t k_cross ! p ! j"
    and "sgm_scale pc \<noteq> 0" and "0 < m"
  shows "\<exists>net. davila_wealth mp inp t k_cross ! p ! j - m
               < davila_csmp (env\<lparr>model := net\<rparr>) pc mp inp t k_cross ! p ! j
             \<and> davila_csmp (env\<lparr>model := net\<rparr>) pc mp inp t k_cross ! p ! j
               < davila_wealth mp inp t k_cross ! p ! j"
proof -
  let ?w = "davila_wealth mp inp t k_cross ! p ! j"
  define z where "z = - ln (m / ?w) / sgm_scale pc"
  have x: "- (sgm_scale pc * z) = ln (m / ?w)" using assms(4) by (simp add: z_def)
  have r: "0 < m / ?w" using assms(3,5) by simp
  have "1 - sigmoid (sgm_scale pc * z) = sigmoid (ln (m / ?w))"
    unfolding one_minus_sigmoid x ..
  also have "\<dots> < exp (ln (m / ?w))" by (rule sigmoid_less_exp)
  also have "\<dots> = m / ?w" using r by simp
  finally have "(1 - sigmoid (sgm_scale pc * z)) * ?w < m"
    using assms(3) by (simp add: pos_less_divide_eq)
  then have "?w - m < sigmoid (sgm_scale pc * z) * ?w" by (simp add: algebra_simps)
  moreover have "sigmoid (sgm_scale pc * z) * ?w < ?w" using assms(3) sigmoid_less_1 by simp
  ultimately show ?thesis
    by (intro exI[of _ "\<lambda>_. map (map (\<lambda>_. z)) (davila_wealth mp inp t k_cross)"])
       (simp only: davila_csmp_constant_net[OF assms(1,2)] simp_thms)
qed

subsection \<open>The loop and the JFV aggregate state\<close>

lemma for_range_append:
  "for_range body (xs @ ys) s
     = (case for_range body xs s of Inl e \<Rightarrow> Inl e | Inr s' \<Rightarrow> for_range body ys s')"
  by (induction xs arbitrary: s) (auto split: sum.splits)

lemma for_range_upt_Suc:
  "for_range body [0..<Suc n] s
     = (case for_range body [0..<n] s of Inl e \<Rightarrow> Inl e | Inr s' \<Rightarrow> body n s')"
  by (simp add: for_range_append split: sum.splits)

lemma jfv_N_next_row_floor: "1 / 100 \<le> jfv_N_next_row mp n a k_row"
  unfolding jfv_N_next_row_def Let_def by simp

lemma jfv_N_next_floor:
  assumes "x \<in> set (jfv_N_next mp inp t k_cross N)"
  shows "1 / 100 \<le> x"
proof -
  from assms obtain n a k_row where "x = jfv_N_next_row mp n a k_row"
    unfolding jfv_N_next_def by (auto simp: set_zip)
  then show ?thesis by (simp only: jfv_N_next_row_floor)
qed

lemma jfv_body_N:
  assumes "jfv_body env pc mp inp t (k_cross, N, util_sum) = Inr (k_cross', N', util_sum')"
  shows "N' = (if t = t_unroll pc - 1 then N else jfv_N_next mp inp t k_cross N)"
  using assms by (auto simp: jfv_body.simps Let_def split: if_splits sum.splits)

lemma jfv_body_nonterminal:
  assumes "t \<noteq> t_unroll pc - 1"
  shows "\<exists>s'. jfv_body env pc mp inp t (k_cross, N, util_sum) = Inr s'"
  using assms by (simp add: jfv_body.simps Let_def)

lemma jfv_prefix_total:
  assumes "n \<le> t_unroll pc - 1"
  shows "\<exists>s. for_range (jfv_body env pc mp inp) [0..<n] s0 = Inr s"
  using assms
proof (induction n)
  case 0
  show ?case by (intro exI[of _ s0]) simp
next
  case (Suc n)
  then obtain s where s: "for_range (jfv_body env pc mp inp) [0..<n] s0 = Inr s" by auto
  obtain k N u where sk: "s = (k, N, u)" by (cases s) auto
  from Suc.prems have "n \<noteq> t_unroll pc - 1" by simp
  from jfv_body_nonterminal[OF this] obtain s' where
    "jfv_body env pc mp inp n (k, N, u) = Inr s'" by blast
  with s sk show ?case unfolding for_range_upt_Suc by (intro exI[of _ s']) simp
qed

lemma jfv_N_floor_along:
  assumes "for_range (jfv_body env pc mp inp) [0..<n] (k0, N0, u0) = Inr (k_cross, N, util_sum)"
    and "0 < n" and "2 \<le> t_unroll pc"
  shows "\<forall>x \<in> set N. 1 / 100 \<le> x"
  using assms(1,2)
proof (induction n arbitrary: k_cross N util_sum)
  case 0
  then show ?case by simp
next
  case (Suc n)
  from Suc.prems(1)[unfolded for_range_upt_Suc] obtain k1 N1 u1 where
    pre: "for_range (jfv_body env pc mp inp) [0..<n] (k0, N0, u0) = Inr (k1, N1, u1)"
    and b: "jfv_body env pc mp inp n (k1, N1, u1) = Inr (k_cross, N, util_sum)"
    by (auto split: sum.splits)
  note N = jfv_body_N[OF b]
  show ?case
  proof (cases "n = t_unroll pc - 1")
    case True
    with assms(3) have "0 < n" by simp
    from Suc.IH[OF pre this] N True show ?thesis by simp
  next
    case False
    with N have "N = jfv_N_next mp inp n k1 N1" by simp
    then show ?thesis using jfv_N_next_floor by blast
  qed
qed

lemma example_jfv_N_next:
  "jfv_N_next example_mparam (example_input (1 / 2) (1 / 2) (- 1) 0) 0 [[1 / 2]] [1 / 2]
     = [1 / 100]"
  by (simp add: jfv_N_next_def jfv_N_next_row_def jfv_K_def example_mparam_def example_input_def
      ashock_at_def reduce_mean_def)

lemma example_jfv_step:
  "jfv_body (example_env [[0]]) (example_pc opt) example_mparam
       (example_input (1 / 2) (1 / 2) (- 1) 0) 0 ([[1 / 2]], [1 / 2], Scalar 0)
     = Inr ([[109 / 400]], [1 / 100],
            Tensor [[discount example_mparam 0 * (1 - 1 / (109 / 40))]])"
  by (simp add: jfv_body.simps example_t_unroll example_jfv_wealth example_jfv_csmp
      example_jfv_N_next jfv_k_next_def example_dt)

subsection \<open>The JFV accumulator\<close>

lemma map_scale_add_mat:
  "map (map (\<lambda>x. x * c)) (map2 (map2 (+)) A B)
     = map2 (map2 (+)) (map (map (\<lambda>x. x * c)) A) (map (map (\<lambda>x. x * (c::real))) B)"
  by (simp add: zip_map_map comp_def case_prod_beta distrib_right)

lemma acc_times_add:
  "acc_times (acc_add u m) c = acc_add (acc_times u c) (map (map (\<lambda>x. x * c)) m)"
proof (cases u)
  case (Scalar r)
  then show ?thesis by (simp add: comp_def distrib_right)
next
  case (Tensor U)
  then show ?thesis by (simp only: acc_add.simps acc_times.simps map_scale_add_mat)
qed

lemma jfv_scaled_prefix:
  assumes "n \<le> t_unroll pc - 1"
  shows "for_range (jfv_body_scaled env pc mp inp) [0..<n] (k0, N0, Scalar 0)
       = map_sum id (\<lambda>(k, N, u). (k, N, acc_times u (dt mp)))
           (for_range (jfv_body env pc mp inp) [0..<n] (k0, N0, Scalar 0))"
  using assms
proof (induction n)
  case 0
  show ?case by simp
next
  case (Suc n)
  then have nt: "n \<noteq> t_unroll pc - 1" and le: "n \<le> t_unroll pc - 1" by simp_all
  from jfv_prefix_total[OF le] obtain k N u where
    s: "for_range (jfv_body env pc mp inp) [0..<n] (k0, N0, Scalar 0) = Inr (k, N, u)"
    by (metis prod_cases3)
  have m: "map (map (\<lambda>x. x * dt mp)) (map (map (\<lambda>c. discount mp n * (1 - 1 / c))) C)
         = map (map (\<lambda>c. dt mp * discount mp n * (1 - 1 / c))) C" for C
    by (simp add: comp_def mult.assoc mult.commute)
  show ?case
    unfolding for_range_upt_Suc Suc.IH[OF le] s
    using nt by (simp add: jfv_body.simps jfv_body_scaled.simps Let_def acc_times_add
        comp_def mult_ac)
qed

lemma jfv_scaled_loop:
  "for_range (jfv_body_scaled env pc mp inp) [0..<t_unroll pc] (k0, N0, Scalar 0)
     = for_range (jfv_body env pc mp inp) [0..<t_unroll pc] (k0, N0, Scalar 0)"
proof (cases "t_unroll pc")
  case 0
  then show ?thesis by simp
next
  case (Suc n)
  then have n: "n = t_unroll pc - 1" by simp
  from jfv_prefix_total[of n pc env mp inp "(k0, N0, Scalar 0)"] n obtain k N u where
    s: "for_range (jfv_body env pc mp inp) [0..<n] (k0, N0, Scalar 0) = Inr (k, N, u)"
    by (metis order_refl prod_cases3)
  show ?thesis
    unfolding Suc for_range_upt_Suc jfv_scaled_prefix[of n pc env mp inp k0 N0, unfolded n[symmetric], OF order_refl] s
    using n by (simp add: jfv_body.simps jfv_body_scaled.simps split: sum.splits)
qed

lemma acc_entries_add:
  assumes "acc_entries u f"
  shows "acc_entries (acc_add u (map (map g) C)) (\<lambda>p j. f p j + g (C ! p ! j))"
  using assms by (cases u) (simp_all add: acc_entries_def)

lemma acc_entries_times:
  assumes "acc_entries u f"
  shows "acc_entries (acc_times u c) (\<lambda>p j. f p j * c)"
  using assms by (cases u) (simp_all add: acc_entries_def)

lemma jfv_prefix_entries:
  assumes "n \<le> t_unroll pc - 1"
  shows "\<exists>u. for_range (jfv_body env pc mp inp) [0..<n] (in_k_cross inp, in_N inp, Scalar 0)
               = Inr (fst (jfv_path env pc mp inp n), snd (jfv_path env pc mp inp n), u)
           \<and> acc_entries u
               (\<lambda>p j. \<Sum>t<n. discount mp t * (1 - 1 / (jfv_csmp_at env pc mp inp t ! p ! j)))"
  using assms
proof (induction n)
  case 0
  show ?case by (simp add: acc_entries_def)
next
  case (Suc n)
  then have nt: "n \<noteq> t_unroll pc - 1" and le: "n \<le> t_unroll pc - 1" by simp_all
  obtain k N where path: "jfv_path env pc mp inp n = (k, N)" by (cases "jfv_path env pc mp inp n")
  from Suc.IH[OF le] path obtain u where
    s: "for_range (jfv_body env pc mp inp) [0..<n] (in_k_cross inp, in_N inp, Scalar 0)
          = Inr (k, N, u)"
    and e: "acc_entries u
       (\<lambda>p j. \<Sum>t<n. discount mp t * (1 - 1 / (jfv_csmp_at env pc mp inp t ! p ! j)))"
    by auto
  have c: "jfv_csmp env pc mp inp n k N = jfv_csmp_at env pc mp inp n"
    by (simp add: jfv_csmp_at_def path)
  let ?u = "acc_add u (map (map (\<lambda>c. discount mp n * (1 - 1 / c))) (jfv_csmp_at env pc mp inp n))"
  have b: "jfv_body env pc mp inp n (k, N, u)
      = Inr (fst (jfv_path env pc mp inp (Suc n)), snd (jfv_path env pc mp inp (Suc n)), ?u)"
    using nt by (simp add: jfv_body.simps Let_def path c)
  have "acc_entries ?u
      (\<lambda>p j. \<Sum>t<Suc n. discount mp t * (1 - 1 / (jfv_csmp_at env pc mp inp t ! p ! j)))"
    using acc_entries_add[OF e, of "\<lambda>c. discount mp n * (1 - 1 / c)" "jfv_csmp_at env pc mp inp n"]
    by simp
  with s b show ?case unfolding for_range_upt_Suc by (intro exI[of _ ?u]) simp
qed

lemma jfv_loop_entries:
  assumes "1 \<le> t_unroll pc"
    and "for_range (jfv_body env pc mp inp) [0..<t_unroll pc]
           (in_k_cross inp, in_N inp, Scalar 0) = Inr (k_cross, N, util_sum)"
  shows "\<exists>U v. util_sum = Tensor U
           \<and> terminal_value env (jfv_terminal_state env pc mp inp) = Inr v
           \<and> (\<forall>p<length U. \<forall>j<length (U ! p).
                 U ! p ! j = jfv_objective_sum env pc mp inp v p j)"
proof -
  define n where "n = t_unroll pc - 1"
  with assms(1) have T: "t_unroll pc = Suc n" by simp
  obtain k N' where path: "jfv_path env pc mp inp n = (k, N')"
    by (cases "jfv_path env pc mp inp n")
  from jfv_prefix_entries[of n pc env mp inp] path n_def obtain u where
    s: "for_range (jfv_body env pc mp inp) [0..<n] (in_k_cross inp, in_N inp, Scalar 0)
          = Inr (k, N', u)"
    and e: "acc_entries u
       (\<lambda>p j. \<Sum>t<n. discount mp t * (1 - 1 / (jfv_csmp_at env pc mp inp t ! p ! j)))"
    by auto
  have ts: "jfv_state env mp inp n k N' = jfv_terminal_state env pc mp inp"
    by (simp add: jfv_terminal_state_def T path)
  from assms(2) have b: "jfv_body env pc mp inp n (k, N', u) = Inr (k_cross, N, util_sum)"
    unfolding T for_range_upt_Suc s by simp
  then obtain v where v: "terminal_value env (jfv_terminal_state env pc mp inp) = Inr v"
    and u: "util_sum = acc_add (acc_times u (dt mp)) (map (map (\<lambda>x. discount mp n * x)) v)"
    by (auto simp: jfv_body.simps T ts split: sum.splits)
  have F: "acc_entries
      (acc_add (acc_times u (dt mp)) (map (map (\<lambda>x. discount mp n * x)) v))
      (\<lambda>p j. (\<Sum>t<n. discount mp t * (1 - 1 / (jfv_csmp_at env pc mp inp t ! p ! j))) * dt mp
               + discount mp n * (v ! p ! j))"
    by (rule acc_entries_add[OF acc_entries_times[OF e]])
  have eq: "(\<lambda>p j. (\<Sum>t<n. discount mp t * (1 - 1 / (jfv_csmp_at env pc mp inp t ! p ! j)))
                     * dt mp + discount mp n * (v ! p ! j))
          = jfv_objective_sum env pc mp inp v"
    by (intro ext) (simp add: jfv_objective_sum_def T sum_distrib_left discount_def mult_ac)
  from F have "acc_entries util_sum (jfv_objective_sum env pc mp inp v)"
    unfolding u eq .
  moreover from u obtain U where "util_sum = Tensor U" by (cases "acc_times u (dt mp)") auto
  ultimately show ?thesis using v by (auto simp: acc_entries_def)
qed

lemma fold_acc_add_Tensor:
  "\<exists>V. fold (\<lambda>vtr value. acc_add value (g vtr)) vs (Tensor U) = Tensor V"
proof (induction vs arbitrary: U)
  case Nil
  show ?case by simp
next
  case (Cons a vs)
  show ?case using Cons.IH by simp
qed

lemma terminal_value_total:
  assumes "vtrainers env \<noteq> []"
  shows "\<exists>v. terminal_value env sd = Inr v"
proof -
  from assms obtain a vs where v: "vtrainers env = a # vs" by (cases "vtrainers env") auto
  from fold_acc_add_Tensor[of "\<lambda>vtr. unnormalize_data env ''value'' (vtr sd)" vs]
  obtain V where
    "fold (\<lambda>vtr value. acc_add value (unnormalize_data env ''value'' (vtr sd))) (vtrainers env)
       (Scalar 0) = Tensor V"
    unfolding v by auto
  then show ?thesis unfolding terminal_value_def by simp
qed

lemma jfv_loop_total:
  assumes "vtrainers env \<noteq> []"
  shows "\<exists>s. for_range (jfv_body env pc mp inp) [0..<t_unroll pc] s0 = Inr s"
proof (cases "t_unroll pc")
  case 0
  then show ?thesis by (intro exI[of _ s0]) simp
next
  case (Suc n)
  then have n: "n \<le> t_unroll pc - 1" and t: "n = t_unroll pc - 1" by simp_all
  from jfv_prefix_total[OF n] obtain k N u where
    s: "for_range (jfv_body env pc mp inp) [0..<n] s0 = Inr (k, N, u)"
    by (metis prod_cases3)
  from terminal_value_total[OF assms] obtain v where
    "terminal_value env (jfv_state env mp inp n k N) = Inr v" by blast
  then have "\<exists>s'. jfv_body env pc mp inp n (k, N, u) = Inr s'"
    using t by (simp add: jfv_body.simps)
  then show ?thesis unfolding Suc for_range_upt_Suc s by simp
qed

lemma example_terminal_value: "terminal_value (example_env out) sd = Inr [[0]]"
  by (simp add: terminal_value_def example_env_def)

lemma example_jfv_loop:
  "for_range (jfv_body (example_env [[0]]) (example_pc opt) example_mparam
       (example_input (1 / 2) (1 / 2) (- 1) 0)) [0..<t_unroll (example_pc opt)]
       ([[1 / 2]], [1 / 2], Scalar 0)
     = Inr ([[109 / 400]], [1 / 100], Tensor [[69 / 1090]])"
proof -
  have b: "jfv_body (example_env [[0]]) (example_pc opt) example_mparam
       (example_input (1 / 2) (1 / 2) (- 1) 0) (Suc 0) ([[109 / 400]], [1 / 100], U)
     = Inr ([[109 / 400]], [1 / 100], acc_add (acc_times U (1 / 10)) [[0]])" for U
    by (simp add: jfv_body.simps example_t_unroll example_terminal_value example_dt)
  have "[0..<t_unroll (example_pc opt)] = [0, Suc 0]"
    by (simp add: example_t_unroll upt_rec)
  then show ?thesis
    by (simp add: example_jfv_step b discount_def)
qed

lemma jfv_loss_scaled_eq: "jfv_loss_scaled env pc mp inp = jfv_loss env pc mp inp"
  unfolding jfv_loss_scaled_def jfv_loss_def jfv_scaled_loop ..

lemma acc_entries_add_mat:
  assumes "acc_entries u f"
  shows "acc_entries (acc_add u m) (\<lambda>p j. f p j + m ! p ! j)"
  using acc_entries_add[OF assms, of id m] by simp

lemma fold_acc_add_entries:
  assumes "acc_entries u f"
  shows "acc_entries (fold (\<lambda>vtr value. acc_add value (g vtr)) vs u)
           (\<lambda>p j. f p j + (\<Sum>i<length vs. g (vs ! i) ! p ! j))"
  using assms
proof (induction vs arbitrary: u f)
  case Nil
  then show ?case by simp
next
  case (Cons a vs)
  have "(\<Sum>i<length (a # vs). g ((a # vs) ! i) ! p ! j)
      = g a ! p ! j + (\<Sum>i<length vs. g (vs ! i) ! p ! j)" for p j
  proof -
    have "(\<Sum>i<Suc (length vs). g ((a # vs) ! i) ! p ! j)
        = g ((a # vs) ! 0) ! p ! j + (\<Sum>i<length vs. g ((a # vs) ! Suc i) ! p ! j)"
      by (rule sum.lessThan_Suc_shift)
    then show ?thesis by (simp del: sum.lessThan_Suc)
  qed
  then have "(\<lambda>p j. f p j + (\<Sum>i<length (a # vs). g ((a # vs) ! i) ! p ! j))
      = (\<lambda>p j. f p j + g a ! p ! j + (\<Sum>i<length vs. g (vs ! i) ! p ! j))"
    by (simp add: add.assoc)
  with Cons.IH[OF acc_entries_add_mat[OF Cons.prems, of "g a"]]
  show ?case by simp
qed

lemma terminal_value_entries:
  assumes "terminal_value env sd = Inr v"
  shows "\<forall>p<length v. \<forall>j<length (v ! p).
           v ! p ! j = (\<Sum>i<length (vtrainers env).
                          unnormalize_data env ''value'' ((vtrainers env ! i) sd) ! p ! j)
                       / real (length (vtrainers env))"
proof -
  let ?g = "\<lambda>vtr. unnormalize_data env ''value'' (vtr sd)"
  from assms obtain V where
    f: "fold (\<lambda>vtr value. acc_add value (?g vtr)) (vtrainers env) (Scalar 0) = Tensor V"
    and v: "v = map (map (\<lambda>x. x / real (length (vtrainers env)))) V"
    by (auto simp: terminal_value_def split: acc.splits)
  have "acc_entries (Scalar 0) (\<lambda>p j. 0)" by (simp add: acc_entries_def)
  from fold_acc_add_entries[OF this, of ?g "vtrainers env"]
  have "\<forall>p<length V. \<forall>j<length (V ! p).
          V ! p ! j = (\<Sum>i<length (vtrainers env). ?g (vtrainers env ! i) ! p ! j)"
    unfolding f by (simp add: acc_entries_def)
  then show ?thesis unfolding v by simp
qed

lemma output_of_socialplanner:
  assumes "opt_type pc = ''socialplanner''"
  shows "output_of pc (Tensor U) gp k
       = Inr \<lparr>m_util = - (sum_list (concat U) / real (length (concat U))), gp_loss = gp,
              k_end = sum_list (concat k) / real (length (concat k))\<rparr>"
  using assms by (simp add: output_of_def reduce_mean_all_def reduce_mean_def)

lemma output_of_game:
  assumes "opt_type pc = ''game''" and "[] \<notin> set U"
  shows "output_of pc (Tensor U) gp k
       = Inr \<lparr>m_util = - (sum_list (map hd U) / real (length U)), gp_loss = gp,
              k_end = sum_list (concat k) / real (length (concat k))\<rparr>"
  using assms by (simp add: output_of_def column_0_def reduce_mean_all_def reduce_mean_def)

lemma example_two_values_share:
  "c_share_of example_env_two_values (example_pc opt) sd = [[1 / 2]]"
  by (simp add: c_share_of_def game_share_id policy_fn_def example_env_two_values_def
      example_env_def example_pc_def sigmoid_def)

lemma example_two_values_terminal: "terminal_value example_env_two_values sd = Inr [[3]]"
  by (simp add: terminal_value_def example_env_two_values_def example_env_def)

lemma example_two_values_csmp:
  "jfv_csmp example_env_two_values (example_pc opt) example_mparam
       (example_input (1 / 2) (1 / 2) a 0) 0 [[1 / 2]] [1 / 2]
     = [[109 / 40]]"
  by (simp add: jfv_csmp_def example_two_values_share example_jfv_wealth jfv_clip_csmp_def
      clip_by_value_def EPSILON_def example_dt)

lemma example_two_values_step:
  "jfv_body example_env_two_values (example_pc opt) example_mparam
       (example_input (1 / 2) (1 / 2) (- 1) 0) 0 ([[1 / 2]], [1 / 2], Scalar 0)
     = Inr ([[109 / 400]], [1 / 100],
            Tensor [[discount example_mparam 0 * (1 - 1 / (109 / 40))]])"
  by (simp add: jfv_body.simps example_t_unroll example_jfv_wealth example_two_values_csmp
      example_jfv_N_next jfv_k_next_def example_dt)

lemma example_beta: "beta example_mparam = 24 / 25"
  by (simp add: example_mparam_def)

lemma example_two_values_loop:
  "for_range (jfv_body example_env_two_values (example_pc opt) example_mparam
       (example_input (1 / 2) (1 / 2) (- 1) 0)) [0..<t_unroll (example_pc opt)]
       ([[1 / 2]], [1 / 2], Scalar 0)
     = Inr ([[109 / 400]], [1 / 100], Tensor [[16041 / 5450]])"
proof -
  have b: "jfv_body example_env_two_values (example_pc opt) example_mparam
       (example_input (1 / 2) (1 / 2) (- 1) 0) (Suc 0) ([[109 / 400]], [1 / 100], U)
     = Inr ([[109 / 400]], [1 / 100],
            acc_add (acc_times U (1 / 10)) [[discount example_mparam (Suc 0) * 3]])" for U
    by (simp add: jfv_body.simps example_t_unroll example_two_values_terminal example_dt)
  have "[0..<t_unroll (example_pc opt)] = [0, Suc 0]"
    by (simp add: example_t_unroll upt_rec)
  then show ?thesis
    by (simp add: example_two_values_step b discount_def example_beta)
qed

subsection \<open>Sampling, training and the trace\<close>

lemma sampler_char:
  "sampler h pc batch_size upd (w, tr) = (Inr train_data, (w', tr')) \<longleftrightarrow>
     (\<exists>d w1 sh w2.
        next_batch h batch_size w = (Inr d, w1)
      \<and> simul_shocks h batch_size w1 = (Inr sh, w2)
      \<and> train_data = d\<lparr>in_ashock := fst sh, in_ishock := snd sh\<rparr>
      \<and> (if epoch_used h w2 > epoch_resample pc
          then update_policydataset h upd w2 = (Inr (), w')
             \<and> tr' = tr @ [NextBatch batch_size, SimulShocks batch_size, UpdatePolicyDataset upd]
          else w' = w2 \<and> tr' = tr @ [NextBatch batch_size, SimulShocks batch_size]))"
  unfolding sampler_def bind_def call_def return_def
  by (auto split: prod.splits sum.splits if_splits)

lemma train_precondition:
  assumes "valid_size (policy_config cfg) < bs"
  shows "train h cfg num_step (Some bs) s
       = (Inl (if lr_beg (policy_config cfg) = 0 then ZeroDivisionError else AssertionError), s)"
  using assms unfolding train_def Let_def raise_def by simp

lemma emits_return: "emits P (return a)"
  unfolding emits_def return_def by simp

lemma emits_raise: "emits P (raise e)"
  unfolding emits_def raise_def by simp

lemma emits_call: "P ev \<Longrightarrow> emits P (call ev f)"
  unfolding emits_def call_def by (auto split: prod.splits)

lemma emits_bind:
  assumes "emits P m" and "\<And>a. emits P (f a)"
  shows "emits P (bind m f)"
  unfolding emits_def
proof
  fix s
  from assms(1) obtain new1 where
    1: "snd (snd (m s)) = snd s @ new1" "\<forall>e \<in> set new1. P e"
    unfolding emits_def by blast
  obtain r s' where ms: "m s = (r, s')" by (cases "m s")
  show "\<exists>new. snd (snd (bind m f s)) = snd s @ new \<and> (\<forall>e \<in> set new. P e)"
  proof (cases r)
    case (Inl e)
    with ms 1 show ?thesis unfolding bind_def by auto
  next
    case (Inr a)
    from assms(2)[of a] obtain new2 where
      2: "snd (snd (f a s')) = snd s' @ new2" "\<forall>e \<in> set new2. P e"
      unfolding emits_def by blast
    from ms Inr 1 2 have "snd (snd (bind m f s)) = snd s @ (new1 @ new2)"
      unfolding bind_def by simp
    moreover from 1 2 have "\<forall>e \<in> set (new1 @ new2). P e" by auto
    ultimately show ?thesis by blast
  qed
qed

lemma emits_if:
  assumes "emits P a" and "emits P b"
  shows "emits P (\<lambda>s. if c s then a s else b s)"
  unfolding emits_def
proof
  fix s
  show "\<exists>new. snd (snd (if c s then a s else b s)) = snd s @ new \<and> (\<forall>e \<in> set new. P e)"
  proof (cases "c s")
    case True
    from assms(1) have "\<exists>new. snd (snd (a s)) = snd s @ new \<and> (\<forall>e \<in> set new. P e)"
      unfolding emits_def by (rule spec)
    with True show ?thesis by (simp only: if_True)
  next
    case False
    from assms(2) have "\<exists>new. snd (snd (b s)) = snd s @ new \<and> (\<forall>e \<in> set new. P e)"
      unfolding emits_def by (rule spec)
    with False show ?thesis by (simp only: if_False)
  qed
qed

lemma emits_for_each:
  assumes "\<And>i v. emits P (body i v)"
  shows "emits P (for_each body xs v)"
proof (induction xs arbitrary: v)
  case Nil
  show ?case by (simp add: emits_return)
next
  case (Cons i xs)
  show ?case by (simp add: emits_bind assms Cons.IH)
qed

lemma emits_sampler:
  assumes "\<And>b. P (NextBatch b)" and "\<And>b. P (SimulShocks b)" and "\<And>u. P (UpdatePolicyDataset u)"
  shows "emits P (sampler h pc batch_size upd)"
  unfolding sampler_def
  by (intro emits_bind emits_call emits_return emits_if assms)

lemma emits_retrain_values:
  assumes "retrain_cond cfg n_step"
  shows "emits (retrain_at_allowed_step cfg) (retrain_values h cfg n_step u)"
  unfolding retrain_values_def
  by (intro emits_bind emits_call emits_for_each) (simp_all add: assms)

lemma emits_train_inner:
  "emits (retrain_at_allowed_step cfg) (train_inner h cfg batch_size n step locals)"
  unfolding train_inner_def Let_def
  by (intro emits_bind emits_sampler emits_call emits_return)
     (auto simp: emits_raise emits_return retrain_cond_def
        intro!: emits_bind emits_retrain_values emits_return)

lemma emits_train_epoch:
  "emits (retrain_at_allowed_step cfg) (train_epoch h cfg batch_size n locals)"
  unfolding train_epoch_def
  by (intro emits_bind emits_for_each emits_train_inner emits_call)
     (auto simp: emits_raise emits_return split: option.splits)

lemma emits_train:
  "emits (retrain_at_allowed_step cfg) (train h cfg num_step batch_size)"
  unfolding train_def Let_def
  by (auto simp: emits_raise emits_return split: option.splits
        intro!: emits_bind emits_call emits_for_each emits_train_epoch emits_return)

lemma retrain_cond_step:
  assumes "retrain_cond cfg k"
  shows "value_sampling cfg \<noteq> ''bchmk'' \<and> k mod freq_update_v (policy_config cfg) = 0 \<and> 0 < k
       \<and> (0 < freq_update_v (policy_config cfg) \<longrightarrow> freq_update_v (policy_config cfg) \<le> k)"
proof -
  from assms have c: "value_sampling cfg \<noteq> ''bchmk''"
    "k mod freq_update_v (policy_config cfg) = 0" "0 < k"
    unfolding retrain_cond_def by simp_all
  from c(2) have "freq_update_v (policy_config cfg) dvd k" by (simp add: dvd_eq_mod_eq_0)
  then have "freq_update_v (policy_config cfg) \<le> k" using c(3) by (rule zdvd_imp_le)
  with c show ?thesis by simp
qed

lemma example_train_run:
  "train example_hooks example_config (Some 2) (Some 4) (0, [])
     = (Inr (),
        (0, [SimulShocks 8,
             NextBatch 4, SimulShocks 4, UpdatePolicyDataset False, TrainStep,
             NextBatch 4, SimulShocks 4, UpdatePolicyDataset False, TrainStep,
             GetValueDataset 1 False, VtrTrain 1 0,
             ValidLoss]))"
proof -
  have r2: "py_range 2 = [0, 1]" and r1: "py_range 1 = [0]"
    by (simp_all add: py_range_def upt_rec)
  show ?thesis
    by (simp add: train_def train_epoch_def train_inner_def retrain_values_def sampler_def
        bind_def call_def return_def raise_def Let_def r2 r1
        example_hooks_def example_config_def example_pc_def)
qed

subsection \<open>Rounding to float64\<close>

lemma rhe_of_int: "rhe (of_int n) = n"
  by (simp add: rhe_def)

lemma rhe_lower: "\<lfloor>t\<rfloor> \<le> rhe t"
  by (simp add: rhe_def Let_def)

lemma rhe_upper: "rhe t \<le> \<lfloor>t\<rfloor> + 1"
  by (simp add: rhe_def Let_def)

lemma rhe_mono:
  assumes "s \<le> t"
  shows "rhe s \<le> rhe t"
proof (cases "\<lfloor>s\<rfloor> = \<lfloor>t\<rfloor>")
  case True
  with assms show ?thesis by (auto simp: rhe_def Let_def)
next
  case False
  with assms have "\<lfloor>s\<rfloor> + 1 \<le> \<lfloor>t\<rfloor>" using floor_mono[OF assms] by linarith
  with rhe_upper[of s] rhe_lower[of t] show ?thesis by linarith
qed

lemma rhe_ge: "of_int n \<le> t \<Longrightarrow> n \<le> rhe t"
  using rhe_mono[of "of_int n" t] by (simp add: rhe_of_int)

lemma rhe_le: "t \<le> of_int n \<Longrightarrow> rhe t \<le> n"
  using rhe_mono[of t "of_int n"] by (simp add: rhe_of_int)

lemma binade:
  assumes "0 < (x::real)"
  shows "2 powr of_int \<lfloor>log 2 x\<rfloor> \<le> x" and "x < 2 powr (of_int \<lfloor>log 2 x\<rfloor> + 1)"
proof -
  have "of_int \<lfloor>log 2 x\<rfloor> \<le> log 2 x" by simp
  with le_log_iff[of 2 x "of_int \<lfloor>log 2 x\<rfloor>"] assms
  show "2 powr of_int \<lfloor>log 2 x\<rfloor> \<le> x" by linarith
  have "log 2 x < of_int \<lfloor>log 2 x\<rfloor> + 1" by linarith
  with log_less_iff[of 2 x "of_int \<lfloor>log 2 x\<rfloor> + 1"] assms
  show "x < 2 powr (of_int \<lfloor>log 2 x\<rfloor> + 1)" by linarith
qed

lemma fl64_pos_eq:
  assumes "0 < x"
  shows "fl64 x = of_int (rhe (x / 2 powr (of_int \<lfloor>log 2 x\<rfloor> - 52)))
                    * 2 powr (of_int \<lfloor>log 2 x\<rfloor> - 52)"
  using assms by (simp add: fl64_def Let_def)

lemma ulp_scale:
  "2 powr of_int e / 2 powr (of_int e - 52) = (2::real) ^ 52"
  "2 powr (of_int e + 1) / 2 powr (of_int e - 52) = (2::real) ^ 53"
proof -
  have "2 powr of_int e / 2 powr (of_int e - 52) = (2::real) powr 52"
    by (simp add: powr_diff[symmetric])
  then show "2 powr of_int e / 2 powr (of_int e - 52) = (2::real) ^ 52" by simp
  have "2 powr (of_int e + 1) / 2 powr (of_int e - 52) = (2::real) powr 53"
    by (simp add: powr_diff[symmetric])
  then show "2 powr (of_int e + 1) / 2 powr (of_int e - 52) = (2::real) ^ 53" by simp
qed

lemma fl64_binade:
  assumes "0 < x"
  shows "2 powr of_int \<lfloor>log 2 x\<rfloor> \<le> fl64 x" and "fl64 x \<le> 2 powr (of_int \<lfloor>log 2 x\<rfloor> + 1)"
proof -
  let ?e = "\<lfloor>log 2 x\<rfloor>"
  let ?q = "2 powr (of_int ?e - 52) :: real"
  have q: "0 < ?q" by simp
  from binade[OF assms] have "2 powr of_int ?e / ?q \<le> x / ?q" and "x / ?q \<le> 2 powr (of_int ?e + 1) / ?q"
    by (simp_all add: divide_right_mono)
  then have "of_int (2 ^ 52) \<le> x / ?q" and "x / ?q \<le> of_int (2 ^ 53)"
    unfolding ulp_scale by simp_all
  then have m: "2 ^ 52 \<le> rhe (x / ?q)" "rhe (x / ?q) \<le> 2 ^ 53"
    by (simp_all only: rhe_ge rhe_le)
  have a: "2 powr of_int ?e = 2 ^ 52 * ?q" and b: "2 powr (of_int ?e + 1) = 2 ^ 53 * ?q"
    using ulp_scale[of ?e] by (simp_all add: field_simps)
  from m(1) have "(2::real) ^ 52 \<le> of_int (rhe (x / ?q))"
    by (metis of_int_le_iff of_int_numeral of_int_power)
  then show "2 powr of_int ?e \<le> fl64 x"
    unfolding a fl64_pos_eq[OF assms] using q by (simp add: mult_right_mono)
  from m(2) have "of_int (rhe (x / ?q)) \<le> (2::real) ^ 53"
    by (metis of_int_le_iff of_int_numeral of_int_power)
  then show "fl64 x \<le> 2 powr (of_int ?e + 1)"
    unfolding b fl64_pos_eq[OF assms] using q by (simp add: mult_right_mono)
qed

lemma fl64_0: "fl64 0 = 0"
  by (simp add: fl64_def)

lemma fl64_pos:
  assumes "0 < x"
  shows "0 < fl64 x"
proof -
  have "(0::real) < 2 powr of_int \<lfloor>log 2 x\<rfloor>" by simp
  with fl64_binade(1)[OF assms] show ?thesis by linarith
qed

lemma fl64_nonneg: "0 \<le> x \<Longrightarrow> 0 \<le> fl64 x"
  using fl64_pos[of x] by (cases "x = 0") (simp_all add: fl64_0 less_eq_real_def)

lemma fl64_mono_pos:
  assumes "0 < x" and "x \<le> y"
  shows "fl64 x \<le> fl64 y"
proof -
  from assms have y: "0 < y" by simp
  let ?ex = "\<lfloor>log 2 x\<rfloor>" and ?ey = "\<lfloor>log 2 y\<rfloor>"
  have "log 2 x \<le> log 2 y" using assms by simp
  then have le: "?ex \<le> ?ey" by (rule floor_mono)
  show ?thesis
  proof (cases "?ex = ?ey")
    case True
    have "x / 2 powr (of_int ?ey - 52) \<le> y / 2 powr (of_int ?ey - 52)"
      using assms(2) by (simp add: divide_right_mono)
    then have "rhe (x / 2 powr (of_int ?ey - 52)) \<le> rhe (y / 2 powr (of_int ?ey - 52))"
      by (rule rhe_mono)
    then show ?thesis
      unfolding fl64_pos_eq[OF assms(1)] fl64_pos_eq[OF y] True
      by (simp add: mult_right_mono)
  next
    case False
    with le have "?ex + 1 \<le> ?ey" by simp
    then have "(of_int ?ex :: real) + 1 \<le> of_int ?ey" by linarith
    then have "(2::real) powr (of_int ?ex + 1) \<le> 2 powr of_int ?ey" by simp
    with fl64_binade(2)[OF assms(1)] fl64_binade(1)[OF y] show ?thesis by linarith
  qed
qed

lemma fl64_mono:
  assumes "0 \<le> x" and "x \<le> y"
  shows "fl64 x \<le> fl64 y"
proof (cases "x = 0")
  case True
  with assms fl64_nonneg[of y] show ?thesis by (simp add: fl64_0)
next
  case False
  with assms have "0 < x" by simp
  then show ?thesis using assms(2) by (rule fl64_mono_pos)
qed

lemma fl64_exact:
  assumes "2 powr of_int e \<le> x" and "x < 2 powr (of_int e + 1)"
    and "x = of_int m * 2 powr (of_int e - 52)"
  shows "fl64 x = x"
proof -
  have "(0::real) < 2 powr of_int e" by simp
  with assms(1) have x: "0 < x" by linarith
  then have e: "\<lfloor>log 2 x\<rfloor> = e"
    using assms(1,2) by (simp add: floor_log_eq_powr_iff)
  have "x / 2 powr (of_int e - 52) = of_int m" using assms(3) by simp
  then show ?thesis unfolding fl64_pos_eq[OF x] e using assms(3) by (simp add: rhe_of_int)
qed

lemma fl64_1: "fl64 1 = 1"
  by (rule fl64_exact[where e = 0 and m = "2 ^ 52"]) (simp_all add: powr_minus_divide)

lemma fl64_2: "fl64 2 = 2"
  by (rule fl64_exact[where e = 1 and m = "2 ^ 52"]) (simp_all add: powr_minus_divide)

lemma fl64_half: "fl64 (1 / 2) = 1 / 2"
  by (rule fl64_exact[where e = "- 1" and m = "2 ^ 52"]) (simp_all add: powr_minus_divide)

lemma fl64_37: "fl64 37 = 37"
  by (rule fl64_exact[where e = 5 and m = "37 * 2 ^ 47"]) (simp_all add: powr_minus_divide)

lemma fl64_small: "fl64 (7 / 2 ^ 56) = 7 / 2 ^ 56"
  by (rule fl64_exact[where e = "- 54" and m = "7 * 2 ^ 50"]) (simp_all add: powr_minus_divide)

lemma fl64_one_plus:
  assumes "0 \<le> z" and "z < 1 / 2 ^ 53"
  shows "fl64 (1 + z) = 1"
proof -
  have x: "0 < 1 + z" using assms(1) by simp
  have e: "\<lfloor>log 2 (1 + z)\<rfloor> = 0"
    using assms x by (simp add: floor_log_eq_powr_iff)
  have s: "(1 + z) / 2 powr (- 52) = 2 ^ 52 + z * 2 ^ 52"
    by (simp add: powr_minus_divide distrib_right)
  have z: "0 \<le> z * 2 ^ 52" "z * 2 ^ 52 < 1 / 2" using assms by simp_all
  then have f: "\<lfloor>(2::real) ^ 52 + z * 2 ^ 52\<rfloor> = 2 ^ 52"
    by (intro floor_unique) simp_all
  have "rhe (2 ^ 52 + z * 2 ^ 52) = 2 ^ 52"
    unfolding rhe_def f Let_def using z by simp
  then show ?thesis unfolding fl64_pos_eq[OF x] e by (simp add: s powr_minus_divide)
qed

lemma exp_1_lower: "271 / 100 \<le> exp (1::real)"
proof -
  have "1 + (1 / 8) + (1 / 8)\<^sup>2 / 2 \<le> exp (1 / 8 :: real)"
    by (rule exp_lower_Taylor_quadratic) simp
  then have "145 / 128 \<le> exp (1 / 8 :: real)" by (simp add: power2_eq_square)
  then have "(145 / 128) ^ 8 \<le> exp (1 / 8 :: real) ^ 8"
    by (rule power_mono) simp
  also have "\<dots> = exp (1 / 8 * of_nat 8 :: real)" by (rule exp_of_nat2_mult[symmetric])
  also have "\<dots> = exp 1" by simp
  finally have "(145 / 128) ^ 8 \<le> exp (1::real)" .
  moreover have "271 / 100 \<le> (145 / 128 :: real) ^ 8" by (simp add: power_divide)
  ultimately show ?thesis by linarith
qed

lemma exp_37_lower: "2 ^ 56 / 7 \<le> exp (37::real)"
proof -
  have "(271 / 100) ^ 37 \<le> exp (1::real) ^ 37"
    by (rule power_mono[OF exp_1_lower]) simp
  also have "\<dots> = exp (1 * of_nat 37 :: real)" by (rule exp_of_nat2_mult[symmetric])
  also have "\<dots> = exp 37" by simp
  finally have "(271 / 100) ^ 37 \<le> exp (37::real)" .
  moreover have "2 ^ 56 / 7 \<le> (271 / 100 :: real) ^ 37" by (simp add: power_divide)
  ultimately show ?thesis by linarith
qed

lemma exp_minus_37_upper: "exp (- 37 :: real) \<le> 7 / 2 ^ 56"
proof -
  have "exp (- 37 :: real) = 1 / exp 37" by (simp add: exp_minus inverse_eq_divide)
  also have "\<dots> \<le> 1 / (2 ^ 56 / 7)"
    by (rule divide_left_mono[OF exp_37_lower]) simp_all
  finally show ?thesis by simp
qed

lemma sigmoid64_range: "0 \<le> sigmoid64 x \<and> sigmoid64 x \<le> 1"
proof -
  let ?y = "fl64 (exp (- x))"
  let ?d = "fl64 (1 + ?y)"
  have y: "0 \<le> ?y" by (rule fl64_nonneg) simp
  have "fl64 1 \<le> ?d" by (rule fl64_mono) (use y in simp_all)
  then have d: "1 \<le> ?d" by (simp add: fl64_1)
  then have q: "0 \<le> 1 / ?d" "1 / ?d \<le> 1" by simp_all
  have "fl64 (1 / ?d) \<le> fl64 1" by (rule fl64_mono[OF q])
  moreover have "0 \<le> fl64 (1 / ?d)" by (rule fl64_nonneg[OF q(1)])
  ultimately show ?thesis unfolding sigmoid64_def by (simp add: fl64_1)
qed

lemma sigmoid64_37: "sigmoid64 37 = 1"
proof -
  let ?y = "fl64 (exp (- 37))"
  have "?y \<le> fl64 (7 / 2 ^ 56)" by (rule fl64_mono[OF _ exp_minus_37_upper]) simp
  then have "?y \<le> 7 / 2 ^ 56" unfolding fl64_small .
  moreover have "(7 / 2 ^ 56 :: real) < 1 / 2 ^ 53" by simp
  ultimately have "?y < 1 / 2 ^ 53" by (rule le_less_trans)
  moreover have "0 \<le> ?y" by (rule fl64_nonneg) simp
  ultimately have "fl64 (1 + ?y) = 1" by (intro fl64_one_plus)
  then show ?thesis unfolding sigmoid64_def by (simp add: fl64_1)
qed

lemma sigmoid64_0: "sigmoid64 0 = 1 / 2"
  unfolding sigmoid64_def by (simp add: fl64_1 fl64_2 fl64_half)

lemma policy_fn64_elem:
  assumes "row \<in> set (policy_fn64 env pc input)" and "c \<in> set row"
  shows "0 \<le> c \<and> c \<le> 1"
  using assms unfolding policy_fn64_def Let_def by (auto simp: sigmoid64_range)

lemma davila_step64_nth:
  assumes "p < length (snd (davila_step64 env pc sd wealth))"
    and "j < length (snd (davila_step64 env pc sd wealth) ! p)"
  shows "fst (davila_step64 env pc sd wealth) ! p ! j
           = fl64 (policy_fn64 env pc sd ! p ! j * wealth ! p ! j)"
    and "snd (davila_step64 env pc sd wealth) ! p ! j
           = fl64 (wealth ! p ! j - fst (davila_step64 env pc sd wealth) ! p ! j)"
    and "0 \<le> policy_fn64 env pc sd ! p ! j" and "policy_fn64 env pc sd ! p ! j \<le> 1"
proof -
  from assms have r: "p < length (policy_fn64 env pc sd)" "p < length wealth"
    "j < length (policy_fn64 env pc sd ! p)" "j < length (wealth ! p)"
    by (simp_all add: davila_step64_def Let_def)
  then show "fst (davila_step64 env pc sd wealth) ! p ! j
           = fl64 (policy_fn64 env pc sd ! p ! j * wealth ! p ! j)"
    by (simp add: davila_step64_def Let_def)
  from r show "snd (davila_step64 env pc sd wealth) ! p ! j
           = fl64 (wealth ! p ! j - fst (davila_step64 env pc sd wealth) ! p ! j)"
    by (simp add: davila_step64_def Let_def)
  from r have "policy_fn64 env pc sd ! p \<in> set (policy_fn64 env pc sd)"
    and "policy_fn64 env pc sd ! p ! j \<in> set (policy_fn64 env pc sd ! p)" by simp_all
  then have "0 \<le> policy_fn64 env pc sd ! p ! j \<and> policy_fn64 env pc sd ! p ! j \<le> 1"
    by (rule policy_fn64_elem)
  then show "0 \<le> policy_fn64 env pc sd ! p ! j" and "policy_fn64 env pc sd ! p ! j \<le> 1"
    by simp_all
qed

lemma davila_step64_bounds:
  assumes "p < length (snd (davila_step64 env pc sd wealth))"
    and "j < length (snd (davila_step64 env pc sd wealth) ! p)"
    and "0 \<le> wealth ! p ! j" and "fl64 (wealth ! p ! j) = wealth ! p ! j"
  shows "0 \<le> fst (davila_step64 env pc sd wealth) ! p ! j"
    and "fst (davila_step64 env pc sd wealth) ! p ! j \<le> wealth ! p ! j"
    and "0 \<le> snd (davila_step64 env pc sd wealth) ! p ! j"
proof -
  let ?s = "policy_fn64 env pc sd ! p ! j" and ?w = "wealth ! p ! j"
  note n = davila_step64_nth[OF assms(1,2)]
  have m: "0 \<le> ?s * ?w" "?s * ?w \<le> ?w"
    using n(3,4) assms(3) by (simp_all add: mult_left_le_one_le)
  show c0: "0 \<le> fst (davila_step64 env pc sd wealth) ! p ! j"
    unfolding n(1) by (rule fl64_nonneg[OF m(1)])
  have "fl64 (?s * ?w) \<le> fl64 ?w" by (rule fl64_mono[OF m])
  then show c1: "fst (davila_step64 env pc sd wealth) ! p ! j \<le> ?w"
    unfolding n(1) assms(4) .
  show "0 \<le> snd (davila_step64 env pc sd wealth) ! p ! j"
    unfolding n(2) by (rule fl64_nonneg) (use c1 in simp)
qed

lemma example_sum_share_37:
  "policy_fn64 example_env_sum (example_pc opt) \<lparr>basic_s = [[[18, 18, 1]]], agt_s = a\<rparr> = [[1]]"
  by (simp add: policy_fn64_def example_env_sum_def example_env_def example_pc_def
      fl64_37 sigmoid64_37)

lemma example_sum_share_0:
  "policy_fn64 example_env_sum (example_pc opt) \<lparr>basic_s = [[[1, 1, - 2]]], agt_s = a\<rparr>
     = [[1 / 2]]"
  by (simp add: policy_fn64_def example_env_sum_def example_env_def example_pc_def
      fl64_0 sigmoid64_0)

lemma example_step64_saturated:
  "davila_step64 example_env_sum (example_pc opt) \<lparr>basic_s = [[[18, 18, 1]]], agt_s = a\<rparr> [[2]]
     = ([[2]], [[0]])"
  by (simp add: davila_step64_def Let_def example_sum_share_37 fl64_2 fl64_0)

lemma example_step64_half:
  "davila_step64 example_env_sum (example_pc opt) \<lparr>basic_s = [[[1, 1, - 2]]], agt_s = a\<rparr> [[2]]
     = ([[1]], [[1]])"
  by (simp add: davila_step64_def Let_def example_sum_share_0 fl64_1)

section \<open>The claims\<close>

subsection \<open>Range of the policy function\<close>




subsection \<open>Clipped consumption\<close>







subsection \<open>The Davila variant without clipping\<close>

text \<open>
  C10, as amended. The Davila recursion applies no clipping: at every non-terminal period
  consumption is \<open>c_share * wealth\<close> and the next capital is \<open>wealth - consumption\<close>, and
  for every entry whose wealth is not negative consumption lies between 0 and wealth and
  the next capital is not negative. The same holds of the two operations computed in
  float64, on the share that \<open>policy_fn\<close> returns in float64, for every float64 wealth that
  is not negative. Consumption is not kept a margin away from 0 or from wealth: for a
  non-zero \<open>sgm_scale\<close>, any positive wealth and any margin \<open>m > 0\<close> there is a policy
  network under which consumption is below \<open>m\<close>, and one under which it is above
  \<open>wealth - m\<close>.
\<close>

theorem davila_capital_nonneg_no_margin:
  "(\<forall>t k_cross util_sum gp.
      t < t_unroll pc - 1 \<and>
      for_range (davila_body env pc mp inp) [0..<t] (in_k_cross inp, Scalar 0, Scalar 0)
        = Inr (k_cross, util_sum, gp)
      \<longrightarrow>
      (case davila_body env pc mp inp t (k_cross, util_sum, gp) of
         Inl e \<Rightarrow> False
       | Inr (k_cross', util_sum', gp') \<Rightarrow>
           \<forall>p<length k_cross'. \<forall>j<length (k_cross' ! p).
               davila_csmp env pc mp inp t k_cross ! p ! j
                 = c_share_of env pc (davila_state mp inp t k_cross) ! p ! j
                     * davila_wealth mp inp t k_cross ! p ! j
             \<and> k_cross' ! p ! j
                 = davila_wealth mp inp t k_cross ! p ! j
                     - davila_csmp env pc mp inp t k_cross ! p ! j
             \<and> (0 \<le> davila_wealth mp inp t k_cross ! p ! j \<longrightarrow>
                  0 \<le> davila_csmp env pc mp inp t k_cross ! p ! j
                \<and> davila_csmp env pc mp inp t k_cross ! p ! j
                    \<le> davila_wealth mp inp t k_cross ! p ! j
                \<and> 0 \<le> k_cross' ! p ! j)))
   \<and> (\<forall>sd wealth.
        case davila_step64 env pc sd wealth of
          (csmp, k_cross') \<Rightarrow>
            \<forall>p<length k_cross'. \<forall>j<length (k_cross' ! p).
              0 \<le> wealth ! p ! j \<and> fl64 (wealth ! p ! j) = wealth ! p ! j \<longrightarrow>
                0 \<le> csmp ! p ! j \<and> csmp ! p ! j \<le> wealth ! p ! j \<and> 0 \<le> k_cross' ! p ! j)
   \<and> (\<forall>t k_cross p j m.
        p < length (davila_wealth mp inp t k_cross)
        \<and> j < length (davila_wealth mp inp t k_cross ! p)
        \<and> 0 < davila_wealth mp inp t k_cross ! p ! j
        \<and> sgm_scale pc \<noteq> 0 \<and> 0 < m
      \<longrightarrow>
        (\<exists>net. 0 < davila_csmp (env\<lparr>model := net\<rparr>) pc mp inp t k_cross ! p ! j
             \<and> davila_csmp (env\<lparr>model := net\<rparr>) pc mp inp t k_cross ! p ! j < m)
      \<and> (\<exists>net. davila_wealth mp inp t k_cross ! p ! j - m
                 < davila_csmp (env\<lparr>model := net\<rparr>) pc mp inp t k_cross ! p ! j
             \<and> davila_csmp (env\<lparr>model := net\<rparr>) pc mp inp t k_cross ! p ! j
                 < davila_wealth mp inp t k_cross ! p ! j))"
proof (intro conjI allI impI)
  fix t k_cross util_sum gp
  assume "t < t_unroll pc - 1 \<and>
    for_range (davila_body env pc mp inp) [0..<t] (in_k_cross inp, Scalar 0, Scalar 0)
      = Inr (k_cross, util_sum, gp)"
  then have t: "t < t_unroll pc - 1" ..
  show "case davila_body env pc mp inp t (k_cross, util_sum, gp) of
         Inl e \<Rightarrow> False
       | Inr (k_cross', util_sum', gp') \<Rightarrow>
           \<forall>p<length k_cross'. \<forall>j<length (k_cross' ! p).
               davila_csmp env pc mp inp t k_cross ! p ! j
                 = c_share_of env pc (davila_state mp inp t k_cross) ! p ! j
                     * davila_wealth mp inp t k_cross ! p ! j
             \<and> k_cross' ! p ! j
                 = davila_wealth mp inp t k_cross ! p ! j
                     - davila_csmp env pc mp inp t k_cross ! p ! j
             \<and> (0 \<le> davila_wealth mp inp t k_cross ! p ! j \<longrightarrow>
                  0 \<le> davila_csmp env pc mp inp t k_cross ! p ! j
                \<and> davila_csmp env pc mp inp t k_cross ! p ! j
                    \<le> davila_wealth mp inp t k_cross ! p ! j
                \<and> 0 \<le> k_cross' ! p ! j)"
    by (rule davila_period_facts[OF t])
next
  fix sd wealth
  have "0 \<le> fst (davila_step64 env pc sd wealth) ! p ! j
      \<and> fst (davila_step64 env pc sd wealth) ! p ! j \<le> wealth ! p ! j
      \<and> 0 \<le> snd (davila_step64 env pc sd wealth) ! p ! j"
    if "p < length (snd (davila_step64 env pc sd wealth))"
      and "j < length (snd (davila_step64 env pc sd wealth) ! p)"
      and "0 \<le> wealth ! p ! j \<and> fl64 (wealth ! p ! j) = wealth ! p ! j" for p j
    using davila_step64_bounds[OF that(1,2)] that(3) by simp
  then show "case davila_step64 env pc sd wealth of
          (csmp, k_cross') \<Rightarrow>
            \<forall>p<length k_cross'. \<forall>j<length (k_cross' ! p).
              0 \<le> wealth ! p ! j \<and> fl64 (wealth ! p ! j) = wealth ! p ! j \<longrightarrow>
                0 \<le> csmp ! p ! j \<and> csmp ! p ! j \<le> wealth ! p ! j \<and> 0 \<le> k_cross' ! p ! j"
    by (cases "davila_step64 env pc sd wealth") simp
next
  fix t k_cross p j and m :: real
  assume a: "p < length (davila_wealth mp inp t k_cross)
        \<and> j < length (davila_wealth mp inp t k_cross ! p)
        \<and> 0 < davila_wealth mp inp t k_cross ! p ! j
        \<and> sgm_scale pc \<noteq> 0 \<and> 0 < m"
  then show "\<exists>net. 0 < davila_csmp (env\<lparr>model := net\<rparr>) pc mp inp t k_cross ! p ! j
             \<and> davila_csmp (env\<lparr>model := net\<rparr>) pc mp inp t k_cross ! p ! j < m"
    by (intro davila_csmp_near_zero) simp_all
  from a show "\<exists>net. davila_wealth mp inp t k_cross ! p ! j - m
                 < davila_csmp (env\<lparr>model := net\<rparr>) pc mp inp t k_cross ! p ! j
             \<and> davila_csmp (env\<lparr>model := net\<rparr>) pc mp inp t k_cross ! p ! j
                 < davila_wealth mp inp t k_cross ! p ! j"
    by (intro davila_csmp_near_wealth) simp_all
qed

theorem davila_capital_nonneg_no_margin_witness:
  "for_range (davila_body (example_env [[0]]) (example_pc ''socialplanner'') example_mparam
        (example_input 1 (1 / 2) 0 1)) [0..<0]
        (in_k_cross (example_input 1 (1 / 2) 0 1), Scalar 0, Scalar 0)
      = Inr ([[1]], Scalar 0, Scalar 0)
   \<and> 0 < t_unroll (example_pc ''socialplanner'') - 1
   \<and> davila_wealth example_mparam (example_input 1 (1 / 2) 0 1) 0 [[1]] = [[19 / 10]]
   \<and> sgm_scale (example_pc ''socialplanner'') \<noteq> 0
   \<and> 0 < EPSILON
   \<and> (case davila_body (example_env [[0]]) (example_pc ''socialplanner'') example_mparam
              (example_input 1 (1 / 2) 0 1) 0 ([[1]], Scalar 0, Scalar 0) of
         Inl e \<Rightarrow> False
       | Inr (k_cross', util_sum', gp') \<Rightarrow> k_cross' = [[19 / 20]] \<and> 0 \<le> k_cross' ! 0 ! 0)
   \<and> fl64 ([[2]] ! 0 ! 0) = [[2]] ! 0 ! 0
   \<and> davila_step64 example_env_sum (example_pc ''socialplanner'')
        \<lparr>basic_s = [[[1, 1, - 2]]], agt_s = [[[1]]]\<rparr> [[2]] = ([[1]], [[1]])
   \<and> (0::real) \<le> [[1]] ! 0 ! 0 \<and> [[1]] ! 0 ! 0 \<le> (2::real)
   \<and> (\<exists>net. 0 < davila_csmp (example_env [[0]]\<lparr>model := net\<rparr>) (example_pc ''socialplanner'')
                    example_mparam (example_input 1 (1 / 2) 0 1) 0 [[1]] ! 0 ! 0
           \<and> davila_csmp (example_env [[0]]\<lparr>model := net\<rparr>) (example_pc ''socialplanner'')
                    example_mparam (example_input 1 (1 / 2) 0 1) 0 [[1]] ! 0 ! 0 < EPSILON)
   \<and> (\<exists>net. 19 / 10 - EPSILON
                < davila_csmp (example_env [[0]]\<lparr>model := net\<rparr>) (example_pc ''socialplanner'')
                    example_mparam (example_input 1 (1 / 2) 0 1) 0 [[1]] ! 0 ! 0
           \<and> davila_csmp (example_env [[0]]\<lparr>model := net\<rparr>) (example_pc ''socialplanner'')
                    example_mparam (example_input 1 (1 / 2) 0 1) 0 [[1]] ! 0 ! 0 < 19 / 10)"
proof -
  note T = davila_capital_nonneg_no_margin
    [where env = "example_env [[0]]" and pc = "example_pc ''socialplanner''"
       and mp = example_mparam and inp = "example_input 1 (1 / 2) 0 1"]
  note F = davila_capital_nonneg_no_margin
    [where env = example_env_sum and pc = "example_pc ''socialplanner''", THEN conjunct2,
      THEN conjunct1, rule_format,
      where sd = "\<lparr>basic_s = [[[1, 1, - 2]]], agt_s = [[[1]]]\<rparr>" and wealth = "[[2]]"]
  have s: "sgm_scale (example_pc ''socialplanner'') \<noteq> 0" by (simp add: example_pc_def)
  show ?thesis
    using T[THEN conjunct1, rule_format, of 0 "[[1]]" "Scalar 0" "Scalar 0"]
      T[THEN conjunct2, THEN conjunct2, rule_format, of 0 0 "[[1]]" 0 EPSILON] s F
    by (simp add: example_t_unroll example_in_k_cross example_davila_wealth
        example_davila_csmp davila_body.simps mat_sub_def EPSILON_def
        example_step64_half fl64_2)
qed

text \<open>
  The claim as stated, with a strictly positive next capital, fails in float64: for the
  state \<open>[18, 18, 1]\<close> the network that sums the state returns 37, the share is exactly 1,
  and at wealth 2 consumption is 2 and the next capital is 0.
\<close>

theorem davila_capital_positive_counterexample:
  "policy_fn64 example_env_sum (example_pc ''socialplanner'')
       \<lparr>basic_s = [[[18, 18, 1]]], agt_s = [[[18]]]\<rparr> = [[1]]
   \<and> davila_step64 example_env_sum (example_pc ''socialplanner'')
        \<lparr>basic_s = [[[18, 18, 1]]], agt_s = [[[18]]]\<rparr> [[2]] = ([[2]], [[0]])
   \<and> (0::real) < [[2]] ! 0 ! 0
   \<and> \<not> (0::real) < [[0]] ! 0 ! 0"
  by (simp add: example_sum_share_37 example_step64_saturated)

subsection \<open>The floor of the JFV aggregate state\<close>

text \<open>
  C4. In the JFV recursion the aggregate state \<open>N\<close> is at least \<open>0.01\<close> after every
  period's update, whatever the drift and diffusion terms are: every update yields entries
  of at least \<open>0.01\<close>; the non-terminal periods never fail; and after any number
  \<open>n > 0\<close> of iterations of the loop, for any horizon of at least two periods (so that
  some period updates \<open>N\<close>), every entry of \<open>N\<close> is at least \<open>0.01\<close>.
\<close>

theorem jfv_N_floor:
  "(\<forall>t k_cross N. \<forall>x \<in> set (jfv_N_next mp inp t k_cross N). 1 / 100 \<le> x)
   \<and> (\<forall>n. n \<le> t_unroll pc - 1 \<longrightarrow>
         (\<exists>s. for_range (jfv_body env pc mp inp) [0..<n] (in_k_cross inp, in_N inp, Scalar 0)
                = Inr s))
   \<and> (\<forall>n k_cross N util_sum.
         0 < n \<and> n \<le> t_unroll pc \<and> 2 \<le> t_unroll pc
         \<and> for_range (jfv_body env pc mp inp) [0..<n] (in_k_cross inp, in_N inp, Scalar 0)
             = Inr (k_cross, N, util_sum)
       \<longrightarrow> (\<forall>x \<in> set N. 1 / 100 \<le> x))"
proof (intro conjI allI impI ballI)
  fix t k_cross N x
  assume "x \<in> set (jfv_N_next mp inp t k_cross N)"
  then show "1 / 100 \<le> x" by (rule jfv_N_next_floor)
next
  fix n
  assume "n \<le> t_unroll pc - 1"
  then show "\<exists>s. for_range (jfv_body env pc mp inp) [0..<n]
                 (in_k_cross inp, in_N inp, Scalar 0) = Inr s"
    by (rule jfv_prefix_total)
next
  fix n k_cross N util_sum x
  assume a: "0 < n \<and> n \<le> t_unroll pc \<and> 2 \<le> t_unroll pc
         \<and> for_range (jfv_body env pc mp inp) [0..<n] (in_k_cross inp, in_N inp, Scalar 0)
             = Inr (k_cross, N, util_sum)"
    and x: "x \<in> set N"
  from a have "\<forall>x \<in> set N. 1 / 100 \<le> x"
    using jfv_N_floor_along[where n = n and k_cross = k_cross and util_sum = util_sum
          and env = env and pc = pc and mp = mp and inp = inp and N = N
          and ?k0.0 = "in_k_cross inp" and ?N0.0 = "in_N inp" and ?u0.0 = "Scalar 0"]
    by simp
  with x show "1 / 100 \<le> x" by blast
qed

theorem jfv_N_floor_witness:
  "(0::nat) < 1 \<and> 1 \<le> t_unroll (example_pc ''socialplanner'')
   \<and> 2 \<le> t_unroll (example_pc ''socialplanner'')
   \<and> (case for_range (jfv_body (example_env [[0]]) (example_pc ''socialplanner'') example_mparam
                (example_input (1 / 2) (1 / 2) (- 1) 0)) [0..<1]
                (in_k_cross (example_input (1 / 2) (1 / 2) (- 1) 0),
                 in_N (example_input (1 / 2) (1 / 2) (- 1) 0), Scalar 0) of
         Inl e \<Rightarrow> False
       | Inr (k_cross, N, util_sum) \<Rightarrow> N = [1 / 100] \<and> 1 / 100 \<le> N ! 0)
   \<and> jfv_N_next example_mparam (example_input (1 / 2) (1 / 2) (- 1) 0) 0 [[1 / 2]] [1 / 2]
        = [1 / 100]"
proof -
  note T = jfv_N_floor
    [where env = "example_env [[0]]" and pc = "example_pc ''socialplanner''"
       and mp = example_mparam and inp = "example_input (1 / 2) (1 / 2) (- 1) 0"]
  show ?thesis
    using T[THEN conjunct2, THEN conjunct2, rule_format,
        of 1 "[[109 / 400]]" "[1 / 100]"
           "Tensor [[discount example_mparam 0 * (1 - 1 / (109 / 40))]]" "1 / 100"]
    by (simp add: example_in_k_cross example_in_N example_jfv_step example_t_unroll
        example_jfv_N_next)
qed

subsection \<open>The JFV objective and its scaling by the time step\<close>

text \<open>
  C6. In the JFV variant, multiplying the running utility sum by \<open>dt\<close> once, at the
  terminal period, is the same as scaling each per-period utility by \<open>dt\<close> as it is
  accumulated: the loss computed with the body that scales each utility equals the loss
  of the source. With at least one value trainer the loop returns. For a horizon of at
  least one period, whenever the loop returns, the accumulated objective is a tensor each
  of whose entries is the sum over the non-terminal periods \<open>t\<close> of
  \<open>dt * beta ^ t * (1 - 1 / c t)\<close> plus \<open>beta ^ (T - 1)\<close> times the terminal value,
  where each entry of the terminal value is the sum of the unnormalised outputs of the
  value trainers at the terminal state divided by the number of value trainers. The loss
  returns as \<open>m_util\<close> the negated mean of that tensor over all its entries in
  social-planner mode, and the negated mean of its column 0 in game mode.
\<close>

theorem jfv_objective_dt_scaling:
  "jfv_loss_scaled env pc mp inp = jfv_loss env pc mp inp
   \<and> (vtrainers env \<noteq> [] \<longrightarrow>
        (\<exists>s. for_range (jfv_body env pc mp inp) [0..<t_unroll pc]
                (in_k_cross inp, in_N inp, Scalar 0) = Inr s))
   \<and> (\<forall>k_cross N util_sum.
        1 \<le> t_unroll pc
        \<and> for_range (jfv_body env pc mp inp) [0..<t_unroll pc]
             (in_k_cross inp, in_N inp, Scalar 0) = Inr (k_cross, N, util_sum)
      \<longrightarrow>
        (\<exists>U v. util_sum = Tensor U
           \<and> terminal_value env (jfv_terminal_state env pc mp inp) = Inr v
           \<and> (\<forall>p<length v. \<forall>j<length (v ! p).
                 v ! p ! j
                   = (\<Sum>i<length (vtrainers env).
                        unnormalize_data env ''value''
                          ((vtrainers env ! i) (jfv_terminal_state env pc mp inp)) ! p ! j)
                     / real (length (vtrainers env)))
           \<and> (\<forall>p<length U. \<forall>j<length (U ! p).
                 U ! p ! j = jfv_objective_sum env pc mp inp v p j)
           \<and> (opt_type pc = ''socialplanner'' \<longrightarrow>
                 jfv_loss env pc mp inp
                   = Inr \<lparr>m_util = - (sum_list (concat U) / real (length (concat U))),
                          gp_loss = None,
                          k_end = sum_list (concat k_cross) / real (length (concat k_cross))\<rparr>)
           \<and> (opt_type pc = ''game'' \<and> [] \<notin> set U \<longrightarrow>
                 jfv_loss env pc mp inp
                   = Inr \<lparr>m_util = - (sum_list (map hd U) / real (length U)),
                          gp_loss = None,
                          k_end = sum_list (concat k_cross) / real (length (concat k_cross))\<rparr>)))"
proof (intro conjI allI impI)
  show "jfv_loss_scaled env pc mp inp = jfv_loss env pc mp inp"
    by (rule jfv_loss_scaled_eq)
next
  assume "vtrainers env \<noteq> []"
  then show "\<exists>s. for_range (jfv_body env pc mp inp) [0..<t_unroll pc]
                (in_k_cross inp, in_N inp, Scalar 0) = Inr s"
    by (rule jfv_loop_total)
next
  fix k_cross N util_sum
  assume a: "1 \<le> t_unroll pc
        \<and> for_range (jfv_body env pc mp inp) [0..<t_unroll pc]
             (in_k_cross inp, in_N inp, Scalar 0) = Inr (k_cross, N, util_sum)"
  then have T: "1 \<le> t_unroll pc"
    and l: "for_range (jfv_body env pc mp inp) [0..<t_unroll pc]
             (in_k_cross inp, in_N inp, Scalar 0) = Inr (k_cross, N, util_sum)"
    by simp_all
  from jfv_loop_entries[OF T l] obtain U v where
    u: "util_sum = Tensor U"
    and v: "terminal_value env (jfv_terminal_state env pc mp inp) = Inr v"
    and e: "\<forall>p<length U. \<forall>j<length (U ! p). U ! p ! j = jfv_objective_sum env pc mp inp v p j"
    by blast
  have lo: "jfv_loss env pc mp inp = output_of pc (Tensor U) None k_cross"
    unfolding jfv_loss_def l u by simp
  have s: "opt_type pc = ''socialplanner'' \<longrightarrow>
                 jfv_loss env pc mp inp
                   = Inr \<lparr>m_util = - (sum_list (concat U) / real (length (concat U))),
                          gp_loss = None,
                          k_end = sum_list (concat k_cross) / real (length (concat k_cross))\<rparr>"
    unfolding lo using output_of_socialplanner by blast
  have g: "opt_type pc = ''game'' \<and> [] \<notin> set U \<longrightarrow>
                 jfv_loss env pc mp inp
                   = Inr \<lparr>m_util = - (sum_list (map hd U) / real (length U)),
                          gp_loss = None,
                          k_end = sum_list (concat k_cross) / real (length (concat k_cross))\<rparr>"
    unfolding lo using output_of_game by blast
  from u v e s g terminal_value_entries[OF v]
  show "\<exists>U v. util_sum = Tensor U
           \<and> terminal_value env (jfv_terminal_state env pc mp inp) = Inr v
           \<and> (\<forall>p<length v. \<forall>j<length (v ! p).
                 v ! p ! j
                   = (\<Sum>i<length (vtrainers env).
                        unnormalize_data env ''value''
                          ((vtrainers env ! i) (jfv_terminal_state env pc mp inp)) ! p ! j)
                     / real (length (vtrainers env)))
           \<and> (\<forall>p<length U. \<forall>j<length (U ! p).
                 U ! p ! j = jfv_objective_sum env pc mp inp v p j)
           \<and> (opt_type pc = ''socialplanner'' \<longrightarrow>
                 jfv_loss env pc mp inp
                   = Inr \<lparr>m_util = - (sum_list (concat U) / real (length (concat U))),
                          gp_loss = None,
                          k_end = sum_list (concat k_cross) / real (length (concat k_cross))\<rparr>)
           \<and> (opt_type pc = ''game'' \<and> [] \<notin> set U \<longrightarrow>
                 jfv_loss env pc mp inp
                   = Inr \<lparr>m_util = - (sum_list (map hd U) / real (length U)),
                          gp_loss = None,
                          k_end = sum_list (concat k_cross) / real (length (concat k_cross))\<rparr>)"
    by (intro exI[of _ U] exI[of _ v] conjI)
qed

theorem jfv_objective_dt_scaling_witness:
  "vtrainers example_env_two_values \<noteq> []
   \<and> 1 \<le> t_unroll (example_pc ''socialplanner'')
   \<and> for_range (jfv_body example_env_two_values (example_pc ''socialplanner'') example_mparam
         (example_input (1 / 2) (1 / 2) (- 1) 0)) [0..<t_unroll (example_pc ''socialplanner'')]
         (in_k_cross (example_input (1 / 2) (1 / 2) (- 1) 0),
          in_N (example_input (1 / 2) (1 / 2) (- 1) 0), Scalar 0)
       = Inr ([[109 / 400]], [1 / 100], Tensor [[16041 / 5450]])
   \<and> terminal_value example_env_two_values
         (jfv_terminal_state example_env_two_values (example_pc ''socialplanner'') example_mparam
            (example_input (1 / 2) (1 / 2) (- 1) 0)) = Inr [[3]]
   \<and> jfv_objective_sum example_env_two_values (example_pc ''socialplanner'') example_mparam
         (example_input (1 / 2) (1 / 2) (- 1) 0) [[3]] 0 0 = 16041 / 5450
   \<and> jfv_loss example_env_two_values (example_pc ''socialplanner'') example_mparam
         (example_input (1 / 2) (1 / 2) (- 1) 0)
       = Inr \<lparr>m_util = - (16041 / 5450), gp_loss = None, k_end = 109 / 400\<rparr>
   \<and> jfv_loss_scaled example_env_two_values (example_pc ''socialplanner'') example_mparam
         (example_input (1 / 2) (1 / 2) (- 1) 0)
       = jfv_loss example_env_two_values (example_pc ''socialplanner'') example_mparam
         (example_input (1 / 2) (1 / 2) (- 1) 0)"
proof -
  note T = jfv_objective_dt_scaling
    [where env = example_env_two_values and pc = "example_pc ''socialplanner''"
       and mp = example_mparam and inp = "example_input (1 / 2) (1 / 2) (- 1) 0"]
  have l: "for_range (jfv_body example_env_two_values (example_pc ''socialplanner'')
         example_mparam
         (example_input (1 / 2) (1 / 2) (- 1) 0)) [0..<t_unroll (example_pc ''socialplanner'')]
         (in_k_cross (example_input (1 / 2) (1 / 2) (- 1) 0),
          in_N (example_input (1 / 2) (1 / 2) (- 1) 0), Scalar 0)
       = Inr ([[109 / 400]], [1 / 100], Tensor [[16041 / 5450]])"
    by (simp only: example_in_k_cross example_in_N example_two_values_loop)
  have h: "1 \<le> t_unroll (example_pc ''socialplanner'')" by (simp add: example_t_unroll)
  have o: "opt_type (example_pc ''socialplanner'') = ''socialplanner''"
    by (simp add: example_pc_def)
  have v: "vtrainers example_env_two_values \<noteq> []"
    by (simp add: example_env_two_values_def)
  from T[THEN conjunct2, THEN conjunct2, rule_format, OF conjI[OF h l]]
  obtain U w where
    "Tensor [[16041 / 5450]] = Tensor U"
    and "terminal_value example_env_two_values
         (jfv_terminal_state example_env_two_values (example_pc ''socialplanner'') example_mparam
            (example_input (1 / 2) (1 / 2) (- 1) 0)) = Inr w"
    and e: "\<forall>p<length U. \<forall>j<length (U ! p).
        U ! p ! j = jfv_objective_sum example_env_two_values (example_pc ''socialplanner'')
          example_mparam (example_input (1 / 2) (1 / 2) (- 1) 0) w p j"
    and lo: "opt_type (example_pc ''socialplanner'') = ''socialplanner'' \<longrightarrow>
       jfv_loss example_env_two_values (example_pc ''socialplanner'') example_mparam
         (example_input (1 / 2) (1 / 2) (- 1) 0)
       = Inr \<lparr>m_util = - (sum_list (concat U) / real (length (concat U))), gp_loss = None,
              k_end = sum_list (concat [[109 / 400]]) / real (length (concat [[109 / 400::real]]))\<rparr>"
    by blast
  then have U: "U = [[16041 / 5450]]" and w: "w = [[3]]"
    by (simp_all add: example_two_values_terminal)
  from e have s: "jfv_objective_sum example_env_two_values (example_pc ''socialplanner'')
          example_mparam (example_input (1 / 2) (1 / 2) (- 1) 0) [[3]] 0 0 = 16041 / 5450"
    unfolding U w by simp
  from lo o have lo': "jfv_loss example_env_two_values (example_pc ''socialplanner'')
         example_mparam (example_input (1 / 2) (1 / 2) (- 1) 0)
       = Inr \<lparr>m_util = - (16041 / 5450), gp_loss = None, k_end = 109 / 400\<rparr>"
    unfolding U by simp
  from v h l s lo' T[THEN conjunct1] show ?thesis
    by (simp only: example_two_values_terminal simp_thms)
qed

subsection \<open>Dataset refresh in the sampler\<close>

text \<open>
  C5. A call of \<open>sampler\<close> returns a batch exactly when taking the next batch and
  simulating its shocks succeed and, if the policy dataset's \<open>epoch_used\<close> counter
  (read after the batch is taken) exceeds \<open>epoch_resample\<close>, the regeneration of the
  dataset succeeds. In that case the call makes exactly one regeneration call, after the
  batch and its shocks and before returning; if the counter does not exceed the threshold
  it makes none.
\<close>

theorem sampler_regenerates_once:
  "sampler h pc batch_size upd (w, tr) = (Inr train_data, (w', tr')) \<longleftrightarrow>
     (\<exists>d w1 sh w2.
        next_batch h batch_size w = (Inr d, w1)
      \<and> simul_shocks h batch_size w1 = (Inr sh, w2)
      \<and> train_data = d\<lparr>in_ashock := fst sh, in_ishock := snd sh\<rparr>
      \<and> (if epoch_used h w2 > epoch_resample pc
          then update_policydataset h upd w2 = (Inr (), w')
             \<and> tr' = tr @ [NextBatch batch_size, SimulShocks batch_size, UpdatePolicyDataset upd]
          else w' = w2 \<and> tr' = tr @ [NextBatch batch_size, SimulShocks batch_size]))"
  by (rule sampler_char)

theorem sampler_regenerates_once_witness:
  "epoch_used example_hooks 1 > epoch_resample (example_pc ''socialplanner'')
   \<and> sampler example_hooks (example_pc ''socialplanner'') 4 False (0, [])
       = (Inr ((example_input 1 1 0 0)\<lparr>in_ashock := [[0, 0]], in_ishock := [[[0, 0]]]\<rparr>),
          (0, [NextBatch 4, SimulShocks 4, UpdatePolicyDataset False]))
   \<and> \<not> epoch_used example_hooks 0 > epoch_resample (example_pc ''socialplanner'')
   \<and> sampler example_hooks (example_pc ''socialplanner'') 4 False (- 1, [])
       = (Inr ((example_input 1 1 0 0)\<lparr>in_ashock := [[0, 0]], in_ishock := [[[0, 0]]]\<rparr>),
          (0, [NextBatch 4, SimulShocks 4]))"
  using sampler_regenerates_once[of example_hooks "example_pc ''socialplanner''" 4 False 0 "[]"
      "(example_input 1 1 0 0)\<lparr>in_ashock := [[0, 0]], in_ishock := [[[0, 0]]]\<rparr>" 0
      "[NextBatch 4, SimulShocks 4, UpdatePolicyDataset False]"]
    sampler_regenerates_once[of example_hooks "example_pc ''socialplanner''" 4 False "- 1" "[]"
      "(example_input 1 1 0 0)\<lparr>in_ashock := [[0, 0]], in_ishock := [[[0, 0]]]\<rparr>" 0
      "[NextBatch 4, SimulShocks 4]"]
  by (simp add: example_hooks_def example_pc_def)

subsection \<open>The precondition of the training loop\<close>

text \<open>
  C8. If \<open>batch_size\<close> exceeds \<open>valid_size\<close>, \<open>train\<close> fails, and it fails before any
  sampling, gradient step or value retraining: the world and the trace are unchanged.
  The failure is the assertion's, unless the learning-rate schedule built just before it
  already failed on a zero \<open>lr_beg\<close>.
\<close>

theorem train_rejects_large_batch:
  "valid_size (policy_config cfg) < bs \<Longrightarrow>
     train h cfg num_step (Some bs) (w, tr)
       = (Inl (if lr_beg (policy_config cfg) = 0 then ZeroDivisionError else AssertionError),
          (w, tr))"
  by (rule train_precondition)

theorem train_rejects_large_batch_witness:
  "valid_size (policy_config example_config) < 9
   \<and> train example_hooks example_config (Some 2) (Some 9) (0, []) = (Inl AssertionError, (0, []))"
  using train_rejects_large_batch[of example_config 9 example_hooks "Some 2" 0 "[]"]
  by (simp add: example_config_def example_pc_def)

subsection \<open>Value retraining and the global step\<close>

text \<open>
  C9. In a run of \<open>train\<close>, every call of the value retraining (the request of the value
  datasets and the training of a value trainer) is made at a global step \<open>k\<close> with the
  value sampling other than the benchmark, \<open>k\<close> a multiple of \<open>freq_update_v\<close> and
  \<open>k > 0\<close>; so none is made at step 0, although 0 is a multiple of \<open>freq_update_v\<close>,
  and with a positive \<open>freq_update_v\<close> the earliest is at step \<open>freq_update_v\<close>.
\<close>

theorem value_retraining_not_at_step_0:
  "train h cfg num_step batch_size (w, []) = (r, (w', tr)) \<Longrightarrow>
     (\<forall>k u. GetValueDataset k u \<in> set tr \<longrightarrow>
        value_sampling cfg \<noteq> ''bchmk'' \<and> k mod freq_update_v (policy_config cfg) = 0 \<and> 0 < k
        \<and> (0 < freq_update_v (policy_config cfg) \<longrightarrow> freq_update_v (policy_config cfg) \<le> k))
   \<and> (\<forall>k i. VtrTrain k i \<in> set tr \<longrightarrow>
        value_sampling cfg \<noteq> ''bchmk'' \<and> k mod freq_update_v (policy_config cfg) = 0 \<and> 0 < k
        \<and> (0 < freq_update_v (policy_config cfg) \<longrightarrow> freq_update_v (policy_config cfg) \<le> k))"
proof -
  assume run: "train h cfg num_step batch_size (w, []) = (r, (w', tr))"
  from emits_train[of cfg h num_step batch_size] obtain new where
    "snd (snd (train h cfg num_step batch_size (w, []))) = snd (w, []) @ new"
    and "\<forall>e \<in> set new. retrain_at_allowed_step cfg e"
    unfolding emits_def by blast
  with run have ok: "\<forall>e \<in> set tr. retrain_at_allowed_step cfg e" by simp
  have "retrain_cond cfg k" if "GetValueDataset k u \<in> set tr" for k u
    using ok that by fastforce
  moreover have "retrain_cond cfg k" if "VtrTrain k i \<in> set tr" for k i
    using ok that by fastforce
  ultimately show ?thesis using retrain_cond_step by blast
qed

theorem value_retraining_not_at_step_0_witness:
  "train example_hooks example_config (Some 2) (Some 4) (0, [])
     = (Inr (),
        (0, [SimulShocks 8,
             NextBatch 4, SimulShocks 4, UpdatePolicyDataset False, TrainStep,
             NextBatch 4, SimulShocks 4, UpdatePolicyDataset False, TrainStep,
             GetValueDataset 1 False, VtrTrain 1 0,
             ValidLoss]))
   \<and> (0::int) mod freq_update_v (policy_config example_config) = 0
   \<and> value_sampling example_config \<noteq> ''bchmk''
   \<and> (1::int) mod freq_update_v (policy_config example_config) = 0
   \<and> (0::int) < 1
   \<and> 0 < freq_update_v (policy_config example_config)
   \<and> freq_update_v (policy_config example_config) \<le> 1"
  using value_retraining_not_at_step_0[OF example_train_run, THEN conjunct1, rule_format,
      of 1 False]
    example_train_run
  by (simp add: example_config_def example_pc_def)

end
